theory Spec2Isabelle
  imports Main "HOL-Library.Char_ord" "HOL-Library.List_Lexorder" "HOL-Library.AList"
    "HOL-Library.Multiset"
begin

section \<open>Spreadsheet values, files and exceptions\<close>

text \<open>
  The engine of \<^verbatim>\<open>src/utils/excel_ops.py\<close> works on values that pandas and xlwings hand
  to it. A cell value is a string, an integer, or the missing value (\<open>NaN\<close>, which is also
  what a blank cell reads as). A sheet is a grid: its rows from the top, each row from
  column A. A path of the disk holds no file, a file that is not a workbook, or a workbook
  with its sheets in the file's order. The cells of a sheet are the values as pandas
  delivers them: what its reader converts on the way (a text such as \<^verbatim>\<open>NA\<close> to the
  missing value, a blank header to \<^verbatim>\<open>Unnamed: i\<close>) is taken as already converted, and
  floating-point numbers, which a numeric column with a blank cell would hold, are not
  part of the model.
\<close>

datatype cell = Text string | Number int | NaN

type_synonym sheet = "cell list list"

datatype content = NotExcel | Excel "(string \<times> sheet) list"

type_synonym disk = "string \<Rightarrow> content option"

text \<open>
  Exceptions are values. \<open>Exception\<close> is what the handler's own
  \<^verbatim>\<open>raise Exception(f"...")\<close> statements raise; the others are raised by the interpreter
  and the libraries. \<open>ExcelError\<close> is an exception of xlwings or of Excel itself, with its
  message. \<open>str_exn\<close> is Python's \<^verbatim>\<open>str(e)\<close>; for the exceptions of the libraries the
  text stands for the library's message, which the handler only copies.
\<close>

datatype exn =
    FileNotFoundError string
  | SameFileError string
  | ValueError string
  | IndexError string
  | ExcelError string
  | AssertionError
  | Exception string

fun str_exn :: "exn \<Rightarrow> string" where
  "str_exn (FileNotFoundError p) = ''No such file or directory: '' @ p"
| "str_exn (SameFileError p) = p @ '' and '' @ p @ '' are the same file''"
| "str_exn (ValueError m) = m"
| "str_exn (IndexError m) = m"
| "str_exn (ExcelError m) = m"
| "str_exn AssertionError = []"
| "str_exn (Exception m) = m"

section \<open>pandas: reading a workbook into a table\<close>

text \<open>
  A DataFrame as \<^verbatim>\<open>pd.read_excel\<close> builds it with its default \<^verbatim>\<open>header=0\<close>: the first
  row of the sheet becomes the column labels, the rows below it are the data, and every
  row is as wide as the widest row of the sheet (missing cells are \<open>NaN\<close>).
\<close>

record dataframe =
  columns :: "cell list"
  rows :: "cell list list"

definition width :: "sheet \<Rightarrow> nat" where
  "width sh = fold max (map length sh) 0"

definition pad :: "nat \<Rightarrow> cell list \<Rightarrow> cell list" where
  "pad w r = r @ replicate (w - length r) NaN"

definition parse_sheet :: "sheet \<Rightarrow> dataframe" where
  "parse_sheet sh =
     (case sh of
        [] \<Rightarrow> \<lparr>columns = [], rows = []\<rparr>
      | h # rest \<Rightarrow> \<lparr>columns = pad (width sh) h, rows = map (pad (width sh)) rest\<rparr>)"

text \<open>\<^verbatim>\<open>pd.ExcelFile(path)\<close>: the workbook's sheets, or the library's exception.\<close>

definition ExcelFile :: "disk \<Rightarrow> string \<Rightarrow> exn + (string \<times> sheet) list" where
  "ExcelFile fs p =
     (case fs p of
        None \<Rightarrow> Inl (FileNotFoundError p)
      | Some NotExcel \<Rightarrow> Inl (ValueError ''Excel file format cannot be determined'')
      | Some (Excel sheets) \<Rightarrow> Inr sheets)"

text \<open>
  \<^verbatim>\<open>pd.read_excel(path, sheet_name=...)\<close>; \<open>None\<close> is the default \<^verbatim>\<open>sheet_name=0\<close>, the
  first sheet.
\<close>

definition pd_read_excel :: "disk \<Rightarrow> string \<Rightarrow> string option \<Rightarrow> exn + dataframe" where
  "pd_read_excel fs p sheet_name =
     (case ExcelFile fs p of
        Inl e \<Rightarrow> Inl e
      | Inr sheets \<Rightarrow>
          (case sheet_name of
             None \<Rightarrow>
               (case sheets of
                  [] \<Rightarrow> Inl (ValueError ''Worksheet index 0 is invalid, 0 worksheets found'')
                | (n, sh) # _ \<Rightarrow> Inr (parse_sheet sh))
           | Some n \<Rightarrow>
               (case map_of sheets n of
                  None \<Rightarrow> Inl (ValueError (''Worksheet named '' @ n @ '' not found''))
                | Some sh \<Rightarrow> Inr (parse_sheet sh))))"

text \<open>\<^verbatim>\<open>df.empty\<close>: an axis of length 0.\<close>

definition df_empty :: "dataframe \<Rightarrow> bool" where
  "df_empty df = (columns df = [] \<or> rows df = [])"

text \<open>
  \<^verbatim>\<open>df.iloc[:, 0]\<close>: the first column, an IndexError for a table without columns.
\<close>

definition cell0 :: "cell list \<Rightarrow> cell" where
  "cell0 r = (case r of [] \<Rightarrow> NaN | c # _ \<Rightarrow> c)"

definition iloc_col0 :: "dataframe \<Rightarrow> exn + cell list" where
  "iloc_col0 df =
     (if columns df = [] then Inl (IndexError ''single positional indexer is out-of-bounds'')
      else Inr (map cell0 (rows df)))"

section \<open>Python strings\<close>

fun digits :: "nat \<Rightarrow> string" where
  "digits n =
     (if n < 10 then [char_of (48 + n)] else digits (n div 10) @ [char_of (48 + n mod 10)])"

definition str_int :: "int \<Rightarrow> string" where
  "str_int i = (if i < 0 then CHR ''-'' # digits (nat (- i)) else digits (nat i))"

text \<open>\<^verbatim>\<open>str(code)\<close> of a cell value.\<close>

fun str_cell :: "cell \<Rightarrow> string" where
  "str_cell (Text s) = s"
| "str_cell (Number i) = str_int i"
| "str_cell NaN = ''nan''"

text \<open>
  \<^verbatim>\<open>str.strip()\<close> and \<^verbatim>\<open>str.lower()\<close> on ASCII text. Python's whitespace below 128 is
  tab, line feed, vertical tab, form feed, carriage return, the four separators 28 to 31,
  and the space.
\<close>

definition is_space :: "char \<Rightarrow> bool" where
  "is_space c = (let n = (of_char c :: nat) in (9 \<le> n \<and> n \<le> 13) \<or> (28 \<le> n \<and> n \<le> 32))"

definition strip :: "string \<Rightarrow> string" where
  "strip s = rev (dropWhile is_space (rev (dropWhile is_space s)))"

definition lower_char :: "char \<Rightarrow> char" where
  "lower_char c =
     (let n = (of_char c :: nat) in if 65 \<le> n \<and> n \<le> 90 then char_of (n + 32) else c)"

definition lower :: "string \<Rightarrow> string" where
  "lower s = map lower_char s"

section \<open>Fund code extraction\<close>

text \<open>\<^verbatim>\<open>pd.notna(code)\<close>.\<close>

definition notna :: "cell \<Rightarrow> bool" where
  "notna c = (c \<noteq> NaN)"

text \<open>
  The body of the cleaning loop of \<^verbatim>\<open>get_fund_codes\<close> for one value: the string that is
  appended to \<^verbatim>\<open>fund_codes\<close>, if any.
\<close>

definition clean_code :: "cell \<Rightarrow> string option" where
  "clean_code code =
     (if notna code then
        (let str_code = strip (str_cell code) in
         if str_code \<noteq> [] \<and> lower str_code \<noteq> ''nan'' then Some str_code else None)
      else None)"

text \<open>
  \<^verbatim>\<open>ExcelHandler.get_fund_codes\<close>. The table is read with \<^verbatim>\<open>pd.read_excel(file_path)\<close>,
  \<^verbatim>\<open>first_col = df.iloc[1:, 0]\<close> drops the table's first row, and the result is
  \<^verbatim>\<open>sorted(list(set(fund_codes)))\<close>. Every exception is re-raised as an \<open>Exception\<close>.
  The debugging \<^verbatim>\<open>print\<close> calls are left out.
\<close>

definition get_fund_codes :: "disk \<Rightarrow> string \<Rightarrow> exn + string list" where
  "get_fund_codes fs file_path =
     (case pd_read_excel fs file_path None of
        Inl e \<Rightarrow> Inl (Exception (''Error extracting fund codes: '' @ str_exn e))
      | Inr df \<Rightarrow>
          if df_empty df then Inr []
          else
            (case iloc_col0 (df\<lparr>rows := drop 1 (rows df)\<rparr>) of
               Inl e \<Rightarrow> Inl (Exception (''Error extracting fund codes: '' @ str_exn e))
             | Inr first_col \<Rightarrow> Inr (sort (remdups (List.map_filter clean_code first_col)))))"

text \<open>
  \<^verbatim>\<open>collections.Counter\<close> turned into a \<^verbatim>\<open>dict\<close>: keys in the order of their first
  occurrence, each with the number of its occurrences.
\<close>

definition count_one :: "string \<Rightarrow> (string \<times> nat) list \<Rightarrow> (string \<times> nat) list" where
  "count_one k d = AList.update k (case map_of d k of None \<Rightarrow> 1 | Some n \<Rightarrow> Suc n) d"

definition Counter :: "string list \<Rightarrow> (string \<times> nat) list" where
  "Counter xs = fold count_one xs []"

text \<open>
  \<^verbatim>\<open>ExcelHandler.analyze_fund_codes\<close>. The loop carries \<^verbatim>\<open>all_fund_codes\<close> and the lines
  the function itself prints: one for a file with codes, one for a file whose extraction
  raised.
\<close>

datatype log_line = FoundCodes string "string list" | ErrorProcessing string string

fun analyze_loop ::
  "disk \<Rightarrow> string list \<Rightarrow> string list \<times> log_line list \<Rightarrow> string list \<times> log_line list" where
  "analyze_loop fs [] acc = acc"
| "analyze_loop fs (file # files) (all_fund_codes, out) =
     (case get_fund_codes fs file of
        Inr fund_codes \<Rightarrow>
          if fund_codes \<noteq> []
          then analyze_loop fs files
                 (all_fund_codes @ fund_codes, out @ [FoundCodes file fund_codes])
          else analyze_loop fs files (all_fund_codes, out)
      | Inl e \<Rightarrow>
          analyze_loop fs files (all_fund_codes, out @ [ErrorProcessing file (str_exn e)]))"

definition analyze_fund_codes :: "disk \<Rightarrow> string list \<Rightarrow> (string \<times> nat) list \<times> log_line list" where
  "analyze_fund_codes fs files =
     (let (all_fund_codes, out) = analyze_loop fs files ([], []) in (Counter all_fund_codes, out))"

section \<open>The spreadsheet reader\<close>

text \<open>
  \<^verbatim>\<open>ExcelHandler.read_excel\<close>: without a sheet name it takes \<^verbatim>\<open>xl.sheet_names[0]\<close>; every
  exception is re-raised as an \<open>Exception\<close>. \<^verbatim>\<open>ExcelHandler.get_sheet_names\<close> likewise.
\<close>

definition read_excel :: "disk \<Rightarrow> string \<Rightarrow> string option \<Rightarrow> exn + dataframe" where
  "read_excel fs file_path sheet_name =
     (case
        (case sheet_name of
           None \<Rightarrow>
             (case ExcelFile fs file_path of
                Inl e \<Rightarrow> Inl e
              | Inr sheets \<Rightarrow>
                  (case map fst sheets of
                     [] \<Rightarrow> Inl (IndexError ''list index out of range'')
                   | n # _ \<Rightarrow> pd_read_excel fs file_path (Some n)))
         | Some n \<Rightarrow> pd_read_excel fs file_path (Some n))
      of
        Inl e \<Rightarrow> Inl (Exception (''Error reading Excel file: '' @ str_exn e))
      | Inr df \<Rightarrow> Inr df)"

definition get_sheet_names :: "disk \<Rightarrow> string \<Rightarrow> exn + string list" where
  "get_sheet_names fs file_path =
     (case ExcelFile fs file_path of
        Inl e \<Rightarrow> Inl (Exception (''Error getting sheet names: '' @ str_exn e))
      | Inr sheets \<Rightarrow> Inr (map fst sheets))"

section \<open>xlwings: cells and ranges of a sheet\<close>

text \<open>
  A cell reference in A1 notation, as the mapping interface supplies it (column letters
  \<^verbatim>\<open>A\<close> to \<^verbatim>\<open>Z\<close>, then a row number without a leading zero), resolved to the pair of
  the row index and the column index, both from 0. Any other text is refused, which
  stands for \<^verbatim>\<open>sheet.range(cell_ref)\<close> raising. The grid has no last row or column:
  the size limits of a worksheet are not part of the model.
\<close>

definition is_upper :: "char \<Rightarrow> bool" where
  "is_upper c = (let n = (of_char c :: nat) in 65 \<le> n \<and> n \<le> 90)"

definition is_digit :: "char \<Rightarrow> bool" where
  "is_digit c = (let n = (of_char c :: nat) in 48 \<le> n \<and> n \<le> 57)"

definition col_number :: "string \<Rightarrow> nat" where
  "col_number letters = fold (\<lambda>c acc. acc * 26 + (of_char c - 64)) letters 0"

definition row_number :: "string \<Rightarrow> nat" where
  "row_number ds = fold (\<lambda>c acc. acc * 10 + (of_char c - 48)) ds 0"

definition cell_position :: "string \<Rightarrow> (nat \<times> nat) option" where
  "cell_position cell_ref =
     (let letters = takeWhile is_upper cell_ref; ds = dropWhile is_upper cell_ref in
      if letters \<noteq> [] \<and> ds \<noteq> [] \<and> list_all is_digit ds \<and> take 1 ds \<noteq> ''0''
      then Some (row_number ds - 1, col_number letters - 1)
      else None)"


definition set_cell :: "sheet \<Rightarrow> nat \<Rightarrow> nat \<Rightarrow> cell \<Rightarrow> sheet" where
  "set_cell sh r c v =
     (let sh1 = sh @ replicate (Suc r - length sh) [];
          row1 = (sh1 ! r) @ replicate (Suc c - length (sh1 ! r)) NaN
      in sh1[r := row1[c := v]])"

fun set_row :: "sheet \<Rightarrow> nat \<Rightarrow> nat \<Rightarrow> cell list \<Rightarrow> sheet" where
  "set_row sh r c [] = sh"
| "set_row sh r c (v # vs) = set_row (set_cell sh r c v) r (Suc c) vs"

text \<open>\<^verbatim>\<open>range.value = values\<close>: the rows of \<open>values\<close> from the range's top-left cell.\<close>

fun set_values :: "sheet \<Rightarrow> nat \<Rightarrow> nat \<Rightarrow> cell list list \<Rightarrow> sheet" where
  "set_values sh r c [] = sh"
| "set_values sh r c (vs # rest) = set_values (set_row sh r c vs) (Suc r) c rest"

text \<open>\<^verbatim>\<open>range.clear_contents()\<close> of the range of the given size at \<open>(r, c)\<close>.\<close>

definition clear_contents :: "sheet \<Rightarrow> nat \<Rightarrow> nat \<Rightarrow> nat \<Rightarrow> nat \<Rightarrow> sheet" where
  "clear_contents sh r c nrows ncols = set_values sh r c (replicate nrows (replicate ncols NaN))"

text \<open>
  Lines 230 to 232 of \<^verbatim>\<open>generate_populated_template\<close>:
  \<^verbatim>\<open>paste_range = sheet.range(cell_ref).resize(len(values), len(values[0]))\<close>,
  \<^verbatim>\<open>paste_range.clear_contents()\<close>, \<^verbatim>\<open>paste_range.value = values\<close>. The range is resolved
  first, then \<^verbatim>\<open>values[0]\<close> is read, and \<^verbatim>\<open>resize\<close> asserts that both sizes are positive.
\<close>

definition paste_values :: "sheet \<Rightarrow> string \<Rightarrow> cell list list \<Rightarrow> exn + sheet" where
  "paste_values sh cell_ref values =
     (case cell_position cell_ref of
        None \<Rightarrow> Inl (ExcelError (''invalid range '' @ cell_ref))
      | Some (r, c) \<Rightarrow>
          (case values of
             [] \<Rightarrow> Inl (IndexError ''list index out of range'')
           | v0 # _ \<Rightarrow>
               if length v0 = 0 then Inl AssertionError
               else Inr (set_values (clear_contents sh r c (length values) (length v0)) r c values)))"

section \<open>The mapping resolver and the template writer\<close>

text \<open>
  A mapping is an entry of the \<^verbatim>\<open>report_mappings\<close> dictionary: the key
  \<^verbatim>\<open>sheet!cell\<close> and the record that \<^verbatim>\<open>main.py\<close> builds for it. The dictionary is the
  list of its entries in insertion order.
\<close>

record mapping_info =
  report :: string
  insert_position :: string

type_synonym mappings = "(string \<times> mapping_info) list"

text \<open>
  \<^verbatim>\<open>if k not in d: d[k] = []\<close> followed by \<^verbatim>\<open>d[k].append(v)\<close>, on a dictionary kept as
  the list of its entries.
\<close>

definition append_group :: "'k \<Rightarrow> 'v \<Rightarrow> ('k \<times> 'v list) list \<Rightarrow> ('k \<times> 'v list) list" where
  "append_group k v d =
     AList.update k ((case map_of d k of None \<Rightarrow> [] | Some vs \<Rightarrow> vs) @ [v]) d"

text \<open>Lines 188 to 193: \<^verbatim>\<open>report_to_mappings\<close>.\<close>

definition group_by_report :: "mappings \<Rightarrow> (string \<times> mappings) list" where
  "group_by_report report_mappings =
     fold (\<lambda>(mapping_key, mapping_info). append_group (report mapping_info) (mapping_key, mapping_info))
       report_mappings []"

text \<open>\<^verbatim>\<open>mapping_key.split('!')\<close> and the unpacking into two names.\<close>

fun split_on :: "char \<Rightarrow> string \<Rightarrow> string list" where
  "split_on sep [] = [[]]"
| "split_on sep (x # xs) =
     (if x = sep then [] # split_on sep xs
      else (case split_on sep xs of [] \<Rightarrow> [[x]] | p # ps \<Rightarrow> (x # p) # ps))"

definition unpack2 :: "string list \<Rightarrow> exn + string \<times> string" where
  "unpack2 parts =
     (case parts of
        [a, b] \<Rightarrow> Inr (a, b)
      | _ \<Rightarrow> Inl (ValueError ''wrong number of values to unpack''))"

text \<open>Lines 217 to 222: \<^verbatim>\<open>sheet_mappings\<close>, every entry carrying the same \<open>values\<close>.\<close>

fun group_by_sheet ::
  "mappings \<Rightarrow> cell list list \<Rightarrow> (string \<times> (string \<times> cell list list) list) list
     \<Rightarrow> exn + (string \<times> (string \<times> cell list list) list) list" where
  "group_by_sheet [] values sheet_mappings = Inr sheet_mappings"
| "group_by_sheet ((mapping_key, mapping_info) # rest) values sheet_mappings =
     (case unpack2 (split_on CHR ''!'' mapping_key) of
        Inl e \<Rightarrow> Inl e
      | Inr (sheet_name, cell_ref) \<Rightarrow>
          group_by_sheet rest values (append_group sheet_name (cell_ref, values) sheet_mappings))"

text \<open>
  Lines 225 to 232. The open workbook is the list of its sheets, and next to it goes the
  list of the pastes made so far: the sheet, the cell reference and the values of each.
\<close>

type_synonym paste = "string \<times> string \<times> cell list list"

fun write_cells ::
  "string \<Rightarrow> sheet \<times> paste list \<Rightarrow> (string \<times> cell list list) list \<Rightarrow> exn + sheet \<times> paste list" where
  "write_cells sheet_name (sh, done) [] = Inr (sh, done)"
| "write_cells sheet_name (sh, done) ((cell_ref, values) # rest) =
     (case paste_values sh cell_ref values of
        Inl e \<Rightarrow> Inl e
      | Inr sh' \<Rightarrow> write_cells sheet_name (sh', done @ [(sheet_name, cell_ref, values)]) rest)"

fun write_sheets ::
  "(string \<times> sheet) list \<times> paste list \<Rightarrow> (string \<times> (string \<times> cell list list) list) list
     \<Rightarrow> exn + (string \<times> sheet) list \<times> paste list" where
  "write_sheets (wb, done) [] = Inr (wb, done)"
| "write_sheets (wb, done) ((sheet_name, cells) # rest) =
     (case map_of wb sheet_name of
        None \<Rightarrow> Inl (ExcelError (''no sheet named '' @ sheet_name))
      | Some sh \<Rightarrow>
          (case write_cells sheet_name (sh, done) cells of
             Inl e \<Rightarrow> Inl e
           | Inr (sh', done') \<Rightarrow> write_sheets (AList.update sheet_name sh' wb, done') rest))"

text \<open>
  Lines 203 to 207: the table of a report, from the cache or from the disk. \<open>reads\<close> lists
  the paths given to \<^verbatim>\<open>pd.read_excel\<close>, in order.
\<close>

type_synonym report_cache = "string \<Rightarrow> dataframe option"

definition load_report ::
  "disk \<Rightarrow> string \<Rightarrow> report_cache \<times> string list \<Rightarrow> (exn + dataframe) \<times> report_cache \<times> string list" where
  "load_report fs report_path cr =
     (case cr of (cache, reads) \<Rightarrow>
        (case cache report_path of
           Some report_df \<Rightarrow> (Inr report_df, cache, reads)
         | None \<Rightarrow>
             (case pd_read_excel fs report_path None of
                Inl e \<Rightarrow> (Inl e, cache, reads @ [report_path])
              | Inr report_df \<Rightarrow>
                  (Inr report_df, cache(report_path \<mapsto> report_df), reads @ [report_path]))))"

text \<open>
  Line 210, \<^verbatim>\<open>report_df[report_df.iloc[:, 0] == fund_code]\<close>: the rows whose first cell
  is equal to the string. A number or a missing value is equal to no string.
\<close>

fun cell_eq :: "cell \<Rightarrow> string \<Rightarrow> bool" where
  "cell_eq (Text s) fund_code = (s = fund_code)"
| "cell_eq (Number i) fund_code = False"
| "cell_eq NaN fund_code = False"

definition filter_rows :: "dataframe \<Rightarrow> string \<Rightarrow> exn + dataframe" where
  "filter_rows report_df fund_code =
     (case iloc_col0 report_df of
        Inl e \<Rightarrow> Inl e
      | Inr first_col \<Rightarrow>
          Inr (report_df\<lparr>rows :=
                 map fst (filter (\<lambda>(r, c). cell_eq c fund_code) (zip (rows report_df) first_col))\<rparr>))"

text \<open>\<^verbatim>\<open>ExcelHandler.filter_report_by_fund\<close>.\<close>

definition filter_report_by_fund :: "disk \<Rightarrow> string \<Rightarrow> string \<Rightarrow> exn + dataframe" where
  "filter_report_by_fund fs report_path fund_code =
     (case pd_read_excel fs report_path None of
        Inl e \<Rightarrow> Inl (Exception (''Error filtering report: '' @ str_exn e))
      | Inr df \<Rightarrow>
          (case filter_rows df fund_code of
             Inl e \<Rightarrow> Inl (Exception (''Error filtering report: '' @ str_exn e))
           | Inr filtered \<Rightarrow> Inr filtered))"

text \<open>
  The state of the loop over the reports (lines 200 to 235): the open workbook, the cache
  dictionary, the reads and the pastes so far. \<open>process_report_body\<close> is lines 202 to 232,
  the body of the inner \<^verbatim>\<open>try\<close>, for one report: it returns the exception that one of its
  steps raises, if any, and the state; the cache and the reads keep what was done before
  the exception. A workbook in which a paste failed is never saved, so the state keeps
  the workbook as it was before the report.
\<close>

record run =
  book :: "(string \<times> sheet) list"
  cache :: report_cache
  reads :: "string list"
  writes :: "paste list"

definition process_report_body ::
  "disk \<Rightarrow> string \<Rightarrow> string \<times> mappings \<Rightarrow> run \<Rightarrow> exn option \<times> run" where
  "process_report_body fs fund_code grp st =
     (case grp of (report_path, mappings) \<Rightarrow>
        (case load_report fs report_path (cache st, reads st) of
           (Inl e, c, r) \<Rightarrow> (Some e, st\<lparr>cache := c, reads := r\<rparr>)
         | (Inr report_df, c, r) \<Rightarrow>
             (let st1 = st\<lparr>cache := c, reads := r\<rparr> in
              case filter_rows report_df fund_code of
                Inl e \<Rightarrow> (Some e, st1)
              | Inr filtered_df \<Rightarrow>
                  if df_empty filtered_df then (None, st1)
                  else
                    (case group_by_sheet mappings (rows filtered_df) [] of
                       Inl e \<Rightarrow> (Some e, st1)
                     | Inr sheet_mappings \<Rightarrow>
                         (case write_sheets (book st1, writes st1) sheet_mappings of
                            Inl e \<Rightarrow> (Some e, st1)
                          | Inr (wb, done) \<Rightarrow> (None, st1\<lparr>book := wb, writes := done\<rparr>))))))"

text \<open>
  Lines 201, 234 and 235: the \<^verbatim>\<open>try\<close> around the body, whose handler raises
  \<^verbatim>\<open>Exception(f"Error processing report {report_path}: {str(e)}")\<close>.
\<close>

definition process_report :: "disk \<Rightarrow> string \<Rightarrow> string \<times> mappings \<Rightarrow> run \<Rightarrow> exn option \<times> run" where
  "process_report fs fund_code grp st =
     (case process_report_body fs fund_code grp st of
        (Some e, st') \<Rightarrow>
          (Some (Exception (''Error processing report '' @ fst grp @ '': '' @ str_exn e)), st')
      | (None, st') \<Rightarrow> (None, st'))"

fun process_reports ::
  "disk \<Rightarrow> string \<Rightarrow> (string \<times> mappings) list \<Rightarrow> run \<Rightarrow> exn option \<times> run" where
  "process_reports fs fund_code [] st = (None, st)"
| "process_reports fs fund_code (grp # rest) st =
     (case process_report fs fund_code grp st of
        (Some e, st') \<Rightarrow> (Some e, st')
      | (None, st') \<Rightarrow> process_reports fs fund_code rest st')"

text \<open>
  \<^verbatim>\<open>shutil.copy2\<close>, and what \<^verbatim>\<open>app.books.open\<close> makes of the content of a file.
\<close>

definition copy2 :: "disk \<Rightarrow> string \<Rightarrow> string \<Rightarrow> exn + disk" where
  "copy2 fs src dst =
     (case fs src of
        None \<Rightarrow> Inl (FileNotFoundError src)
      | Some f \<Rightarrow> if src = dst then Inl (SameFileError src) else Inr (fs(dst \<mapsto> f)))"

definition books_open :: "disk \<Rightarrow> string \<Rightarrow> exn + (string \<times> sheet) list" where
  "books_open fs p =
     (case fs p of
        Some (Excel sheets) \<Rightarrow> Inr sheets
      | _ \<Rightarrow> Inl (ExcelError (''cannot open workbook '' @ p)))"

text \<open>
  Whether Excel starts and opens a workbook (lines 196 and 197) and whether it saves and
  closes it (lines 238 and 239) depends on the machine, beyond the content of the file:
  \<open>open_error\<close> and \<open>save_error\<close> are the exceptions that these lines raise there, if they
  do. A file that is not a workbook cannot be opened on any machine.
\<close>

record excel =
  open_error :: "exn option"
  save_error :: "exn option"

definition app_open :: "excel \<Rightarrow> disk \<Rightarrow> string \<Rightarrow> exn + (string \<times> sheet) list" where
  "app_open xl fs p = (case open_error xl of Some e \<Rightarrow> Inl e | None \<Rightarrow> books_open fs p)"

text \<open>
  \<^verbatim>\<open>ExcelHandler.generate_populated_template\<close>, on a machine \<open>xl\<close>. What a call leaves
  behind: the value it returns or the exception it raises, the disk, the cache dictionary
  (the caller's object when one was passed, mutated in place), the reads and the pastes
  it made. The copy is made before the \<^verbatim>\<open>try\<close>; every exception after it reaches the
  handler of lines 241 to 245, which deletes the output file and raises
  \<^verbatim>\<open>Exception(f"Error generating populated template: {str(e)}")\<close>.
\<close>

record outcome =
  returned :: "exn + report_cache"
  disk_after :: disk
  cache_after :: report_cache
  read_log :: "string list"
  write_log :: "paste list"

definition generate_with ::
  "excel \<Rightarrow> disk \<Rightarrow> string \<Rightarrow> string \<Rightarrow> mappings \<Rightarrow> string \<Rightarrow> report_cache option \<Rightarrow> outcome" where
  "generate_with xl fs template_path output_path report_mappings fund_code report_cache =
     (let cache0 = (case report_cache of None \<Rightarrow> Map.empty | Some c \<Rightarrow> c) in
      case copy2 fs template_path output_path of
        Inl e \<Rightarrow>
          \<lparr>returned = Inl e, disk_after = fs, cache_after = cache0, read_log = [], write_log = []\<rparr>
      | Inr fs1 \<Rightarrow>
          (let report_to_mappings = group_by_report report_mappings in
           case app_open xl fs1 output_path of
             Inl e \<Rightarrow>
               \<lparr>returned = Inl (Exception (''Error generating populated template: '' @ str_exn e)),
                disk_after = fs1(output_path := None), cache_after = cache0,
                read_log = [], write_log = []\<rparr>
           | Inr wb \<Rightarrow>
               (case process_reports fs1 fund_code report_to_mappings
                       \<lparr>book = wb, cache = cache0, reads = [], writes = []\<rparr> of
                  (Some e, st) \<Rightarrow>
                    \<lparr>returned = Inl (Exception (''Error generating populated template: '' @ str_exn e)),
                     disk_after = fs1(output_path := None), cache_after = cache st,
                     read_log = reads st, write_log = writes st\<rparr>
                | (None, st) \<Rightarrow>
                    (case save_error xl of
                       Some e \<Rightarrow>
                         \<lparr>returned = Inl (Exception (''Error generating populated template: '' @ str_exn e)),
                          disk_after = fs1(output_path := None), cache_after = cache st,
                          read_log = reads st, write_log = writes st\<rparr>
                     | None \<Rightarrow>
                         \<lparr>returned = Inr (cache st), disk_after = fs1(output_path \<mapsto> Excel (book st)),
                          cache_after = cache st, read_log = reads st, write_log = writes st\<rparr>))))"

text \<open>
  The call on a machine where Excel starts, opens every workbook, saves and closes.
\<close>

definition working_excel :: excel where
  "working_excel = \<lparr>open_error = None, save_error = None\<rparr>"

definition generate_populated_template ::
  "disk \<Rightarrow> string \<Rightarrow> string \<Rightarrow> mappings \<Rightarrow> string \<Rightarrow> report_cache option \<Rightarrow> outcome" where
  "generate_populated_template fs template_path output_path report_mappings fund_code report_cache =
     generate_with working_excel fs template_path output_path report_mappings fund_code report_cache"

text \<open>
  The calling pattern of the generation loop of \<^verbatim>\<open>main.py\<close>,
  \<^verbatim>\<open>report_cache = generate_populated_template(..., report_cache=report_cache)\<close>, for a
  list of calls (template, output, mappings, fund code) that all return: each call gets
  the cache the previous one returned. The result is the last cache, the disk and all the
  reads in order.
\<close>

fun generate_seq ::
  "disk \<Rightarrow> report_cache \<Rightarrow> (string \<times> string \<times> mappings \<times> string) list \<Rightarrow> string list
     \<Rightarrow> exn + report_cache \<times> disk \<times> string list" where
  "generate_seq fs c [] log = Inr (c, fs, log)"
| "generate_seq fs c ((template_path, output_path, report_mappings, fund_code) # rest) log =
     (let out = generate_populated_template fs template_path output_path report_mappings fund_code (Some c) in
      case returned out of
        Inl e \<Rightarrow> Inl e
      | Inr c' \<Rightarrow> generate_seq (disk_after out) c' rest (log @ read_log out))"

section \<open>Auxiliary notions for the statements\<close>

text \<open>The codes a file contributes to the analysis: none when its extraction raises.\<close>

definition codes_of :: "disk \<Rightarrow> string \<Rightarrow> string list" where
  "codes_of fs f = (case get_fund_codes fs f of Inr cs \<Rightarrow> cs | Inl e \<Rightarrow> [])"

fun is_error_line :: "log_line \<Rightarrow> bool" where
  "is_error_line (ErrorProcessing f m) = True"
| "is_error_line (FoundCodes f cs) = False"

text \<open>
  The table the generation uses for a report: the cached one, else the one read from the
  disk. \<open>load_cache\<close> and \<open>load_reads\<close> are the cache after lines 203 to 207 and the reads
  these lines make.
\<close>

definition report_table :: "disk \<Rightarrow> report_cache \<Rightarrow> string \<Rightarrow> exn + dataframe" where
  "report_table fs c rp = (case c rp of Some df \<Rightarrow> Inr df | None \<Rightarrow> pd_read_excel fs rp None)"

definition load_cache :: "disk \<Rightarrow> string \<Rightarrow> report_cache \<Rightarrow> report_cache" where
  "load_cache fs rp c =
     (case c rp of
        Some df \<Rightarrow> c
      | None \<Rightarrow> (case pd_read_excel fs rp None of Inr df \<Rightarrow> c(rp \<mapsto> df) | Inl e \<Rightarrow> c))"

definition load_reads :: "string \<Rightarrow> report_cache \<Rightarrow> string list" where
  "load_reads rp c = (case c rp of Some df \<Rightarrow> [] | None \<Rightarrow> [rp])"


text \<open>
  The report can be loaded, its table has a first column, and no row of the table has the
  fund code in that column.
\<close>

definition no_match :: "disk \<Rightarrow> report_cache \<Rightarrow> string \<Rightarrow> string \<Rightarrow> bool" where
  "no_match fs c fund_code rp =
     (case report_table fs c rp of
        Inr df \<Rightarrow> columns df \<noteq> [] \<and> list_all (\<lambda>r. \<not> cell_eq (cell0 r) fund_code) (rows df)
      | Inl e \<Rightarrow> False)"

text \<open>
  The rows that line 210 keeps of a report for a fund code (none when the report cannot
  be loaded or filtered), a paste as the pair of its mapping key \<^verbatim>\<open>sheet!cell\<close> and its
  values, the entries of a grouping dictionary as pairs of a key and one member, and the
  pastes that a \<^verbatim>\<open>sheet_mappings\<close> dictionary asks for, in its order.
\<close>

definition block_of :: "disk \<Rightarrow> report_cache \<Rightarrow> string \<Rightarrow> string \<Rightarrow> cell list list" where
  "block_of fs c fund_code rp =
     (case report_table fs c rp of
        Inr df \<Rightarrow> (case filter_rows df fund_code of Inr filtered \<Rightarrow> rows filtered | Inl e \<Rightarrow> [])
      | Inl e \<Rightarrow> [])"

definition keyed :: "paste \<Rightarrow> string \<times> cell list list" where
  "keyed w = (case w of (sheet_name, cell_ref, values) \<Rightarrow> (sheet_name @ ''!'' @ cell_ref, values))"

definition flat :: "('k \<times> 'v list) list \<Rightarrow> ('k \<times> 'v) list" where
  "flat d = concat (map (\<lambda>(k, vs). map (Pair k) vs) d)"

definition plan :: "(string \<times> (string \<times> cell list list) list) list \<Rightarrow> paste list" where
  "plan sheet_mappings = concat (map (\<lambda>(sheet_name, cells). map (\<lambda>(cell_ref, values). (sheet_name, cell_ref, values)) cells) sheet_mappings)"

section \<open>The paste in the words of the specification\<close>











section \<open>Concrete inputs\<close>

text \<open>A report with a header row and two data rows, alone on a disk.\<close>

definition two_funds :: sheet where
  "two_funds =
     [[Text ''Fund'', Text ''Value''],
      [Text ''FundA'', Number 10],
      [Text ''FundB'', Number 20]]"

definition two_funds_disk :: disk where
  "two_funds_disk = Map.empty(''R1.xlsx'' \<mapsto> Excel [(''Sheet1'', two_funds)])"

text \<open>
  A report in which \<^verbatim>\<open>FundB\<close> stands in two data rows after the first, and a file that
  is not a workbook.
\<close>

definition repeated_fund :: sheet where
  "repeated_fund =
     [[Text ''Fund'', Text ''Value''],
      [Text ''FundA'', Number 10],
      [Text ''FundB'', Number 20],
      [Text ''FundB'', Number 30]]"

definition analysis_disk :: disk where
  "analysis_disk =
     Map.empty(''R1.xlsx'' \<mapsto> Excel [(''Sheet1'', two_funds)],
               ''R2.xlsx'' \<mapsto> Excel [(''Sheet1'', repeated_fund)],
               ''notes.txt'' \<mapsto> NotExcel)"

text \<open>
  The scenario of the specification: a report with the rows of \<^verbatim>\<open>FundA\<close>, \<^verbatim>\<open>FundB\<close>,
  \<^verbatim>\<open>FundA\<close> under a header, a template with the sheets \<^verbatim>\<open>Summary\<close> and \<^verbatim>\<open>Detail\<close>,
  and a file that is not a workbook.
\<close>

definition fund_report :: sheet where
  "fund_report =
     [[Text ''Fund'', Text ''Value''],
      [Text ''FundA'', Number 10],
      [Text ''FundB'', Number 20],
      [Text ''FundA'', Number 30]]"

definition summary_sheet :: sheet where
  "summary_sheet = [[Text ''Summary of the fund''], [], [], [], [Text ''old'', Text ''old'', Text ''keep'']]"

definition gen_disk :: disk where
  "gen_disk =
     Map.empty(''R1.xlsx'' \<mapsto> Excel [(''Sheet1'', fund_report)],
               ''template.xlsx'' \<mapsto> Excel [(''Summary'', summary_sheet), (''Detail'', [])],
               ''broken.xlsx'' \<mapsto> NotExcel)"

definition two_mappings :: mappings where
  "two_mappings =
     [(''Summary!A5'', \<lparr>report = ''R1.xlsx'', insert_position = ''A5''\<rparr>),
      (''Detail!B2'', \<lparr>report = ''R1.xlsx'', insert_position = ''B2''\<rparr>)]"

text \<open>
  A report whose first column holds a fund code with blanks around it and a number, and
  mappings for it; a mapping to a sheet that the template does not have.
\<close>

definition padded_report :: sheet where
  "padded_report =
     [[Text ''Fund'', Text ''Value''],
      [Text ''FundA'', Number 1],
      [Text '' FundB '', Number 2],
      [Number 42, Number 3]]"

definition padded_disk :: disk where
  "padded_disk =
     Map.empty(''R3.xlsx'' \<mapsto> Excel [(''Sheet1'', padded_report)],
               ''template.xlsx'' \<mapsto> Excel [(''Summary'', summary_sheet), (''Detail'', [])])"

definition padded_mappings :: mappings where
  "padded_mappings = [(''Summary!A5'', \<lparr>report = ''R3.xlsx'', insert_position = ''A5''\<rparr>)]"

definition missing_sheet_mappings :: mappings where
  "missing_sheet_mappings = [(''Nope!A1'', \<lparr>report = ''R1.xlsx'', insert_position = ''A1''\<rparr>)]"

text \<open>A report whose first sheet has no cell at all, and a mapping for it.\<close>

definition empty_report_disk :: disk where
  "empty_report_disk =
     Map.empty(''E.xlsx'' \<mapsto> Excel [(''Sheet1'', [])],
               ''template.xlsx'' \<mapsto> Excel [(''Summary'', summary_sheet), (''Detail'', [])])"

definition empty_report_mappings :: mappings where
  "empty_report_mappings = [(''Summary!A5'', \<lparr>report = ''E.xlsx'', insert_position = ''A5''\<rparr>)]"

text \<open>An Excel in which the workbook opens and the save fails.\<close>

definition save_fails :: excel where
  "save_fails = \<lparr>open_error = None, save_error = Some (ExcelError ''cannot save the workbook'')\<rparr>"

section \<open>The structure of a generation\<close>

text \<open>One report with its handler, and a call on a working machine, written out.\<close>

lemma process_report_unfold:
  "process_report fs fund_code grp st =
     (case grp of (report_path, mappings) \<Rightarrow>
        (let wrap = (\<lambda>e. Exception (''Error processing report '' @ report_path @ '': '' @ str_exn e)) in
         case load_report fs report_path (cache st, reads st) of
           (Inl e, c, r) \<Rightarrow> (Some (wrap e), st\<lparr>cache := c, reads := r\<rparr>)
         | (Inr report_df, c, r) \<Rightarrow>
             (let st1 = st\<lparr>cache := c, reads := r\<rparr> in
              case filter_rows report_df fund_code of
                Inl e \<Rightarrow> (Some (wrap e), st1)
              | Inr filtered_df \<Rightarrow>
                  if df_empty filtered_df then (None, st1)
                  else
                    (case group_by_sheet mappings (rows filtered_df) [] of
                       Inl e \<Rightarrow> (Some (wrap e), st1)
                     | Inr sheet_mappings \<Rightarrow>
                         (case write_sheets (book st1, writes st1) sheet_mappings of
                            Inl e \<Rightarrow> (Some (wrap e), st1)
                          | Inr (wb, done) \<Rightarrow> (None, st1\<lparr>book := wb, writes := done\<rparr>))))))"
  by (simp add: process_report_def process_report_body_def Let_def
           split: prod.splits sum.splits)

lemma generate_populated_template_unfold:
  "generate_populated_template fs template_path output_path report_mappings fund_code report_cache =
     (let cache0 = (case report_cache of None \<Rightarrow> Map.empty | Some c \<Rightarrow> c) in
      case copy2 fs template_path output_path of
        Inl e \<Rightarrow>
          \<lparr>returned = Inl e, disk_after = fs, cache_after = cache0, read_log = [], write_log = []\<rparr>
      | Inr fs1 \<Rightarrow>
          (let report_to_mappings = group_by_report report_mappings in
           case books_open fs1 output_path of
             Inl e \<Rightarrow>
               \<lparr>returned = Inl (Exception (''Error generating populated template: '' @ str_exn e)),
                disk_after = fs1(output_path := None), cache_after = cache0,
                read_log = [], write_log = []\<rparr>
           | Inr wb \<Rightarrow>
               (case process_reports fs1 fund_code report_to_mappings
                       \<lparr>book = wb, cache = cache0, reads = [], writes = []\<rparr> of
                  (Some e, st) \<Rightarrow>
                    \<lparr>returned = Inl (Exception (''Error generating populated template: '' @ str_exn e)),
                     disk_after = fs1(output_path := None), cache_after = cache st,
                     read_log = reads st, write_log = writes st\<rparr>
                | (None, st) \<Rightarrow>
                    \<lparr>returned = Inr (cache st), disk_after = fs1(output_path \<mapsto> Excel (book st)),
                     cache_after = cache st, read_log = reads st, write_log = writes st\<rparr>)))"
  by (simp add: generate_populated_template_def generate_with_def working_excel_def app_open_def Let_def
           split: sum.splits prod.splits option.splits)

section \<open>The fund code analysis\<close>

lemma map_of_count_one:
  "map_of (count_one k d) = (map_of d)(k \<mapsto> (case map_of d k of None \<Rightarrow> 1 | Some n \<Rightarrow> Suc n))"
  by (simp add: count_one_def update_conv')

lemma map_of_fold_count_one:
  "map_of (fold count_one xs d) k =
     (if count_list xs k = 0 then map_of d k
      else Some (count_list xs k + (case map_of d k of None \<Rightarrow> 0 | Some m \<Rightarrow> m)))"
proof (induction xs arbitrary: d)
  case Nil
  show ?case by simp
next
  case (Cons x xs)
  show ?case
    by (simp add: Cons.IH map_of_count_one split: option.splits)
qed

lemma map_of_Counter:
  "map_of (Counter xs) k = (if count_list xs k = 0 then None else Some (count_list xs k))"
  by (simp add: Counter_def map_of_fold_count_one)

lemma get_fund_codes_distinct: "get_fund_codes fs f = Inr cs \<Longrightarrow> distinct cs"
  by (auto simp: get_fund_codes_def split: sum.splits if_splits)

lemma codes_of_distinct: "distinct (codes_of fs f)"
  by (auto simp: codes_of_def dest: get_fund_codes_distinct split: sum.splits)

lemma codes_of_failure: "get_fund_codes fs f = Inl e \<Longrightarrow> codes_of fs f = []"
  by (simp add: codes_of_def)

lemma count_list_distinct: "distinct xs \<Longrightarrow> count_list xs k = (if k \<in> set xs then 1 else 0)"
  by (induction xs) auto

lemma count_list_concat_codes:
  "count_list (concat (map (codes_of fs) fl)) k =
     length (filter (\<lambda>f. k \<in> set (codes_of fs f)) fl)"
  by (induction fl) (simp_all add: count_list_distinct codes_of_distinct)

lemma analyze_loop_codes:
  "fst (analyze_loop fs fl (acc, out)) = acc @ concat (map (codes_of fs) fl)"
proof (induction fl arbitrary: acc out)
  case Nil
  show ?case by simp
next
  case (Cons f fl)
  show ?case
    by (cases "get_fund_codes fs f") (simp_all add: Cons.IH codes_of_def)
qed

lemma analyze_loop_errors:
  "filter is_error_line (snd (analyze_loop fs fl (acc, out))) =
     filter is_error_line out @
     List.map_filter
       (\<lambda>f. case get_fund_codes fs f of Inl e \<Rightarrow> Some (ErrorProcessing f (str_exn e)) | Inr cs \<Rightarrow> None)
       fl"
proof (induction fl arbitrary: acc out)
  case Nil
  show ?case by (simp add: List.map_filter_simps)
next
  case (Cons f fl)
  show ?case
    by (cases "get_fund_codes fs f") (simp_all add: Cons.IH List.map_filter_simps)
qed

lemma analyze_counts:
  "fst (analyze_fund_codes fs fl) = Counter (concat (map (codes_of fs) fl))"
proof -
  obtain a b where ab: "analyze_loop fs fl ([], []) = (a, b)"
    by (cases "analyze_loop fs fl ([], [])")
  have "a = concat (map (codes_of fs) fl)"
    using analyze_loop_codes [of fs fl "[]" "[]"] ab by simp
  then show ?thesis by (simp add: analyze_fund_codes_def ab)
qed

lemma analyze_log:
  "snd (analyze_fund_codes fs fl) = snd (analyze_loop fs fl ([], []))"
  by (simp add: analyze_fund_codes_def split: prod.splits)

lemma in_codes_of:
  "(k \<in> set (codes_of fs f)) = (case get_fund_codes fs f of Inr cs \<Rightarrow> k \<in> set cs | Inl e \<Rightarrow> False)"
  by (simp add: codes_of_def split: sum.splits)

lemma concat_codes_filter:
  "concat (map (codes_of fs) (filter (\<lambda>f. \<not> isl (get_fund_codes fs f)) fl)) =
     concat (map (codes_of fs) fl)"
proof (induction fl)
  case Nil
  show ?case by simp
next
  case (Cons f fl)
  show ?case
  proof (cases "get_fund_codes fs f")
    case (Inl e)
    then show ?thesis using Cons.IH by (simp add: codes_of_failure)
  next
    case (Inr cs)
    then show ?thesis using Cons.IH by simp
  qed
qed

text \<open>
  What the extraction computes from a file whose first sheet has a first row \<open>header\<close>
  and the rows \<open>data\<close> below it: the cleaned first cells of \<open>drop 1 data\<close>, sorted and
  without duplicates. The first of the data rows takes no part.
\<close>

lemma cell0_pad: "cell0 (pad w r) = cell0 r"
  by (cases r; cases w) (simp_all add: cell0_def pad_def)

lemma get_fund_codes_rows:
  assumes "fs p = Some (Excel ((n, header # data) # others))"
  shows "get_fund_codes fs p =
           Inr (sort (remdups (List.map_filter clean_code (map cell0 (drop 1 data)))))"
proof -
  let ?w = "width (header # data)"
  have rd: "pd_read_excel fs p None =
              Inr \<lparr>columns = pad ?w header, rows = map (pad ?w) data\<rparr>"
    using assms by (simp add: pd_read_excel_def ExcelFile_def parse_sheet_def)
  have col: "map cell0 (drop 1 (map (pad ?w) data)) = map cell0 (drop 1 data)"
    by (simp add: drop_map cell0_pad)
  show ?thesis
  proof (cases "pad ?w header = [] \<or> data = []")
    case False
    then show ?thesis using rd col
      by (simp add: get_fund_codes_def df_empty_def iloc_col0_def)
  next
    case True
    have "List.map_filter clean_code (map cell0 (drop 1 data)) = []"
    proof (cases "data = []")
      case True
      then show ?thesis by (simp add: List.map_filter_simps)
    next
      case False
      then have "pad ?w header = []" using True by simp
      then have w0: "?w = 0" by (auto simp: pad_def)
      have "\<forall>r\<in>set data. length r \<le> ?w"
      proof
        fix r assume "r \<in> set data"
        then have "length r \<in> set (0 # map length (header # data))" by simp
        then have "length r \<le> Max (set (0 # map length (header # data)))"
          by (intro Max_ge) simp_all
        then show "length r \<le> ?w"
          by (simp only: width_def Max.set_eq_fold)
      qed
      then have "\<forall>r\<in>set data. cell0 r = NaN" using w0 by (auto simp: cell0_def)
      then have "\<forall>c\<in>set (map cell0 (drop 1 data)). clean_code c = None"
        by (auto simp: clean_code_def notna_def dest: in_set_dropD)
      then show ?thesis
        by (induction "map cell0 (drop 1 data)" arbitrary: data)
           (auto simp: List.map_filter_def filter_empty_conv)
    qed
    then show ?thesis using rd True col
      by (auto simp: get_fund_codes_def df_empty_def iloc_col0_def)
  qed
qed

text \<open>
  C1. On a report with a header row and the data rows \<^verbatim>\<open>FundA\<close>, \<^verbatim>\<open>FundB\<close>, the
  extraction returns \<^verbatim>\<open>FundB\<close> alone: \<^verbatim>\<open>pd.read_excel\<close> has already taken the header
  row for the column labels, and \<^verbatim>\<open>df.iloc[1:, 0]\<close> then drops the first data row. The
  row filter of the generation, on the same file, does find the row of \<^verbatim>\<open>FundA\<close>.
\<close>

theorem get_fund_codes_drops_first_data_row:
  "get_fund_codes two_funds_disk ''R1.xlsx'' = Inr [''FundB'']
   \<and> filter_report_by_fund two_funds_disk ''R1.xlsx'' ''FundA'' =
       Inr \<lparr>columns = [Text ''Fund'', Text ''Value''], rows = [[Text ''FundA'', Number 10]]\<rparr>"
  by code_simp

text \<open>
  C6. The count that \<^verbatim>\<open>analyze_fund_codes\<close> returns for a fund code is the number of
  files of the list whose extraction returns a list containing the code (the code is not
  a key when that number is 0), and the list extracted from a file has no duplicates, so
  a file counts once however often the code occurs in it.
\<close>

theorem analyze_fund_codes_counts_files:
  "map_of (fst (analyze_fund_codes fs fl)) code =
     (let n = length (filter (\<lambda>f. case get_fund_codes fs f of
                                     Inr cs \<Rightarrow> code \<in> set cs
                                   | Inl e \<Rightarrow> False) fl)
      in if n = 0 then None else Some n)
   \<and> (case get_fund_codes fs f of Inr cs \<Rightarrow> distinct cs | Inl e \<Rightarrow> True)"
proof
  show "map_of (fst (analyze_fund_codes fs fl)) code =
     (let n = length (filter (\<lambda>f. case get_fund_codes fs f of
                                     Inr cs \<Rightarrow> code \<in> set cs
                                   | Inl e \<Rightarrow> False) fl)
      in if n = 0 then None else Some n)"
    by (simp add: analyze_counts map_of_Counter count_list_concat_codes in_codes_of Let_def)
  show "case get_fund_codes fs f of Inr cs \<Rightarrow> distinct cs | Inl e \<Rightarrow> True"
    by (simp add: get_fund_codes_distinct split: sum.splits)
qed

theorem analyze_fund_codes_counts_files_witness:
  "get_fund_codes analysis_disk ''R2.xlsx'' = Inr [''FundB'']
   \<and> map_of (fst (analyze_fund_codes analysis_disk [''R1.xlsx'', ''R2.xlsx''])) ''FundB'' = Some 2"
proof
  show "get_fund_codes analysis_disk ''R2.xlsx'' = Inr [''FundB'']"
    by code_simp
  have n: "length (filter (\<lambda>f. case get_fund_codes analysis_disk f of
                                  Inr cs \<Rightarrow> ''FundB'' \<in> set cs
                                | Inl e \<Rightarrow> False) [''R1.xlsx'', ''R2.xlsx'']) = 2"
    by code_simp
  have "map_of (fst (analyze_fund_codes analysis_disk [''R1.xlsx'', ''R2.xlsx''])) ''FundB'' =
     (let n = length (filter (\<lambda>f. case get_fund_codes analysis_disk f of
                                     Inr cs \<Rightarrow> ''FundB'' \<in> set cs
                                   | Inl e \<Rightarrow> False) [''R1.xlsx'', ''R2.xlsx''])
      in if n = 0 then None else Some n)"
    by (rule conjunct1 [OF analyze_fund_codes_counts_files
                             [of analysis_disk "[''R1.xlsx'', ''R2.xlsx'']" "''FundB''" "''R2.xlsx''"]])
  also have "\<dots> = Some 2"
    by (simp only: n Let_def) simp
  finally show "map_of (fst (analyze_fund_codes analysis_disk [''R1.xlsx'', ''R2.xlsx''])) ''FundB'' = Some 2" .
qed

text \<open>
  C8. \<^verbatim>\<open>analyze_fund_codes\<close> always returns: its counts are those of the list without
  the files whose extraction raises, and the error lines it prints are one for each such
  file, in order, with the file and the message.
\<close>

theorem analyze_fund_codes_skips_failures:
  "fst (analyze_fund_codes fs fl) =
     fst (analyze_fund_codes fs (filter (\<lambda>f. \<not> isl (get_fund_codes fs f)) fl))
   \<and> filter is_error_line (snd (analyze_fund_codes fs fl)) =
       List.map_filter
         (\<lambda>f. case get_fund_codes fs f of
                 Inl e \<Rightarrow> Some (ErrorProcessing f (str_exn e))
               | Inr cs \<Rightarrow> None)
         fl"
  by (simp add: analyze_counts concat_codes_filter analyze_log analyze_loop_errors)

theorem analyze_fund_codes_skips_failures_witness:
  "isl (get_fund_codes analysis_disk ''notes.txt'')
   \<and> fst (analyze_fund_codes analysis_disk [''R1.xlsx'', ''notes.txt'', ''R2.xlsx'']) =
       [(''FundB'', 2)]
   \<and> filter is_error_line
        (snd (analyze_fund_codes analysis_disk [''R1.xlsx'', ''notes.txt'', ''R2.xlsx''])) =
       [ErrorProcessing ''notes.txt''
          ''Error extracting fund codes: Excel file format cannot be determined'']"
proof (intro conjI)
  show "isl (get_fund_codes analysis_disk ''notes.txt'')"
    by code_simp
  have kept: "filter (\<lambda>f. \<not> isl (get_fund_codes analysis_disk f))
                [''R1.xlsx'', ''notes.txt'', ''R2.xlsx''] = [''R1.xlsx'', ''R2.xlsx'']"
    by code_simp
  have counts: "fst (analyze_fund_codes analysis_disk [''R1.xlsx'', ''R2.xlsx'']) = [(''FundB'', 2)]"
    by code_simp
  have lines: "List.map_filter
         (\<lambda>f. case get_fund_codes analysis_disk f of
                 Inl e \<Rightarrow> Some (ErrorProcessing f (str_exn e))
               | Inr cs \<Rightarrow> None)
         [''R1.xlsx'', ''notes.txt'', ''R2.xlsx''] =
       [ErrorProcessing ''notes.txt''
          ''Error extracting fund codes: Excel file format cannot be determined'']"
    by code_simp
  note inst = analyze_fund_codes_skips_failures
               [of analysis_disk "[''R1.xlsx'', ''notes.txt'', ''R2.xlsx'']"]
  show "fst (analyze_fund_codes analysis_disk [''R1.xlsx'', ''notes.txt'', ''R2.xlsx'']) =
       [(''FundB'', 2)]"
    using conjunct1 [OF inst] by (simp only: kept counts)
  show "filter is_error_line
        (snd (analyze_fund_codes analysis_disk [''R1.xlsx'', ''notes.txt'', ''R2.xlsx''])) =
       [ErrorProcessing ''notes.txt''
          ''Error extracting fund codes: Excel file format cannot be determined'']"
    using conjunct2 [OF inst] by (simp only: lines)
qed

section \<open>The spreadsheet reader\<close>

text \<open>
  C9. Whatever was at the path before, reading a workbook without a sheet name gives the
  table of the first sheet of the file as it is now (the first of the names that
  \<^verbatim>\<open>get_sheet_names\<close> lists), so nothing is kept from an earlier read. \<^verbatim>\<open>read_excel\<close>
  raises exactly when the file cannot be opened as a workbook or the sheet asked for is
  not in it: the first sheet of a workbook without sheets, or a name that no sheet has.
\<close>

theorem read_excel_first_sheet_or_error:
  "read_excel (fs(p \<mapsto> Excel ((n, sh) # rest))) p None = Inr (parse_sheet sh)
   \<and> get_sheet_names (fs(p \<mapsto> Excel ((n, sh) # rest))) p = Inr (n # map fst rest)
   \<and> ((\<exists>e. read_excel fs p sheet_name = Inl e) \<longleftrightarrow>
        (\<exists>e. ExcelFile fs p = Inl e) \<or>
        (\<exists>sheets. ExcelFile fs p = Inr sheets \<and>
           (case sheet_name of None \<Rightarrow> sheets = [] | Some s \<Rightarrow> s \<notin> fst ` set sheets)))"
proof (intro conjI)
  show "read_excel (fs(p \<mapsto> Excel ((n, sh) # rest))) p None = Inr (parse_sheet sh)"
    by (simp add: read_excel_def ExcelFile_def pd_read_excel_def)
  show "get_sheet_names (fs(p \<mapsto> Excel ((n, sh) # rest))) p = Inr (n # map fst rest)"
    by (simp add: get_sheet_names_def ExcelFile_def)
  show "(\<exists>e. read_excel fs p sheet_name = Inl e) \<longleftrightarrow>
        (\<exists>e. ExcelFile fs p = Inl e) \<or>
        (\<exists>sheets. ExcelFile fs p = Inr sheets \<and>
           (case sheet_name of None \<Rightarrow> sheets = [] | Some s \<Rightarrow> s \<notin> fst ` set sheets))"
  proof (cases "ExcelFile fs p")
    case (Inl e)
    then show ?thesis
      by (cases sheet_name) (simp_all add: read_excel_def pd_read_excel_def)
  next
    case (Inr sheets)
    show ?thesis
    proof (cases sheet_name)
      case None
      then show ?thesis using Inr
        by (cases sheets) (auto simp: read_excel_def pd_read_excel_def)
    next
      case (Some s)
      show ?thesis
      proof (cases "map_of sheets s")
        case None
        then have "s \<notin> fst ` set sheets" by (simp add: map_of_eq_None_iff)
        then show ?thesis using None Some Inr
          by (simp add: read_excel_def pd_read_excel_def)
      next
        case (Some sh)
        then have "s \<in> fst ` set sheets" by (metis map_of_eq_None_iff option.distinct(1))
        then show ?thesis using Some \<open>sheet_name = Some s\<close> Inr
          by (simp add: read_excel_def pd_read_excel_def)
      qed
    qed
  qed
qed

theorem read_excel_first_sheet_or_error_witness:
  "read_excel two_funds_disk ''R1.xlsx'' None = Inr (parse_sheet two_funds)
   \<and> (\<exists>e. read_excel two_funds_disk ''R1.xlsx'' (Some ''Other'') = Inl e)
   \<and> (\<exists>e. read_excel two_funds_disk ''R2.xlsx'' None = Inl e)"
proof (intro conjI)
  have d: "two_funds_disk = two_funds_disk(''R1.xlsx'' \<mapsto> Excel ((''Sheet1'', two_funds) # []))"
    by (simp add: two_funds_disk_def)
  show "read_excel two_funds_disk ''R1.xlsx'' None = Inr (parse_sheet two_funds)"
    using conjunct1 [OF read_excel_first_sheet_or_error
                          [of two_funds_disk "''R1.xlsx''" "''Sheet1''" two_funds "[]"]] d
    by simp
  have ok: "ExcelFile two_funds_disk ''R1.xlsx'' = Inr [(''Sheet1'', two_funds)]"
    by (simp add: ExcelFile_def two_funds_disk_def)
  show "\<exists>e. read_excel two_funds_disk ''R1.xlsx'' (Some ''Other'') = Inl e"
    using conjunct2 [OF conjunct2 [OF read_excel_first_sheet_or_error
                          [of two_funds_disk "''R1.xlsx''" _ _ _ "Some ''Other''"]]] ok
    by simp
  have no: "ExcelFile two_funds_disk ''R2.xlsx'' = Inl (FileNotFoundError ''R2.xlsx'')"
    by (simp add: ExcelFile_def two_funds_disk_def)
  show "\<exists>e. read_excel two_funds_disk ''R2.xlsx'' None = Inl e"
    using conjunct2 [OF conjunct2 [OF read_excel_first_sheet_or_error
                          [of two_funds_disk "''R2.xlsx''" _ _ _ None]]] no
    by simp
qed

section \<open>Pasting a block of values\<close>







section \<open>The report cache\<close>

lemma load_report_eq:
  "load_report fs rp (c, rd) = (report_table fs c rp, load_cache fs rp c, rd @ load_reads rp c)"
  by (simp add: load_report_def report_table_def load_cache_def load_reads_def
           split: option.splits sum.splits)

lemma report_table_load_cache:
  "report_table fs (load_cache fs rp c) x = report_table fs c x"
  by (simp add: report_table_def load_cache_def split: option.splits sum.splits)

lemma load_cache_map_le: "c \<subseteq>\<^sub>m load_cache fs rp c"
  by (auto simp: load_cache_def map_le_def split: option.splits sum.splits)

lemma load_cache_dom: "dom (load_cache fs rp c) \<subseteq> dom c \<union> set (load_reads rp c)"
  by (auto simp: load_cache_def load_reads_def split: option.splits sum.splits if_splits)

lemma load_cache_stored:
  "report_table fs c rp = Inr df \<Longrightarrow> load_cache fs rp c rp = Some df"
  by (auto simp: load_cache_def report_table_def split: option.splits sum.splits)

lemma load_reads_fresh: "set (load_reads rp c) \<inter> dom c = {}"
  by (auto simp: load_reads_def split: option.splits)

lemma load_cache_from_disk:
  "load_cache fs rp c x = Some df \<Longrightarrow>
     c x = Some df \<or> (x = rp \<and> c rp = None \<and> pd_read_excel fs rp None = Inr df)"
  by (auto simp: load_cache_def split: option.splits sum.splits if_splits)

lemma process_report_cache:
  "process_report fs fund (rp, ms) st = (res, st') \<Longrightarrow>
     cache st' = load_cache fs rp (cache st) \<and> reads st' = reads st @ load_reads rp (cache st)"
  by (auto simp: process_report_unfold load_report_eq Let_def
           split: sum.splits if_splits prod.splits)

lemma process_report_loaded:
  "process_report fs fund (rp, ms) st = (None, st') \<Longrightarrow> rp \<in> dom (cache st')"
  by (auto simp: process_report_unfold load_report_eq Let_def load_cache_stored
           split: sum.splits if_splits prod.splits)

lemma process_reports_cache:
  "process_reports fs fund gs st = (res, st') \<Longrightarrow>
     \<exists>new. reads st' = reads st @ new \<and> distinct new \<and> set new \<inter> dom (cache st) = {} \<and>
           cache st \<subseteq>\<^sub>m cache st' \<and> dom (cache st') \<subseteq> dom (cache st) \<union> set new \<and>
           (res = None \<longrightarrow> set new \<subseteq> dom (cache st') \<and> fst ` set gs \<subseteq> dom (cache st')) \<and>
           (\<forall>x. report_table fs (cache st') x = report_table fs (cache st) x) \<and>
           (\<forall>x df. cache st' x = Some df \<longrightarrow>
                    cache st x = Some df \<or> (x \<in> set new \<and> pd_read_excel fs x None = Inr df)) \<and>
           (\<forall>x df. x \<in> set new \<and> pd_read_excel fs x None = Inr df \<longrightarrow> cache st' x = Some df)"
proof (induction gs arbitrary: st)
  case Nil
  then show ?case by auto
next
  case (Cons g gs)
  obtain rp ms where g: "g = (rp, ms)" by (cases g)
  obtain r1 st1 where step: "process_report fs fund (rp, ms) st = (r1, st1)"
    by (cases "process_report fs fund (rp, ms) st")
  note c1 = process_report_cache [OF step]
  have le1: "cache st \<subseteq>\<^sub>m cache st1" using c1 by (simp add: load_cache_map_le)
  have dom1: "dom (cache st1) \<subseteq> dom (cache st) \<union> set (load_reads rp (cache st))"
    using c1 load_cache_dom [of fs rp "cache st"] by simp
  have fresh1: "set (load_reads rp (cache st)) \<inter> dom (cache st) = {}"
    by (rule load_reads_fresh)
  have tab1: "\<And>x. report_table fs (cache st1) x = report_table fs (cache st) x"
    using c1 by (simp add: report_table_load_cache)
  have from1: "\<And>x df. cache st1 x = Some df \<Longrightarrow>
      cache st x = Some df \<or> (x \<in> set (load_reads rp (cache st)) \<and> pd_read_excel fs x None = Inr df)"
  proof -
    fix x df assume "cache st1 x = Some df"
    then have "load_cache fs rp (cache st) x = Some df" using c1 by simp
    from load_cache_from_disk [OF this]
    show "cache st x = Some df \<or> (x \<in> set (load_reads rp (cache st)) \<and> pd_read_excel fs x None = Inr df)"
      by (auto simp: load_reads_def split: option.splits)
  qed
  have store1: "\<And>x df. x \<in> set (load_reads rp (cache st)) \<Longrightarrow> pd_read_excel fs x None = Inr df
      \<Longrightarrow> cache st1 x = Some df"
    using c1 by (auto simp: load_reads_def load_cache_def split: option.splits)
  show ?case
  proof (cases r1)
    case (Some e)
    then have "res = Some e" "st' = st1" using Cons.prems g step by simp_all
    then show ?thesis
      using c1 le1 dom1 fresh1 tab1 from1 store1
      by (intro exI [of _ "load_reads rp (cache st)"]) (auto simp: load_reads_def split: option.splits)
  next
    case None
    then have rest: "process_reports fs fund gs st1 = (res, st')"
      using Cons.prems g step by simp
    from Cons.IH [OF rest] obtain new where
      n1: "reads st' = reads st1 @ new" and n2: "distinct new"
      and n3: "set new \<inter> dom (cache st1) = {}" and n4: "cache st1 \<subseteq>\<^sub>m cache st'"
      and n5: "dom (cache st') \<subseteq> dom (cache st1) \<union> set new"
      and n6: "res = None \<longrightarrow> set new \<subseteq> dom (cache st') \<and> fst ` set gs \<subseteq> dom (cache st')"
      and n7: "\<forall>x. report_table fs (cache st') x = report_table fs (cache st1) x"
      and n8: "\<forall>x df. cache st' x = Some df \<longrightarrow>
                    cache st1 x = Some df \<or> (x \<in> set new \<and> pd_read_excel fs x None = Inr df)"
      and n9: "\<forall>x df. x \<in> set new \<and> pd_read_excel fs x None = Inr df \<longrightarrow> cache st' x = Some df"
      by blast
    have in1: "rp \<in> dom (cache st1)"
      using process_report_loaded step None by blast
    have sub1: "set (load_reads rp (cache st)) \<subseteq> dom (cache st1)"
      using in1 by (auto simp: load_reads_def split: option.splits)
    have d1: "dom (cache st) \<subseteq> dom (cache st1)" using le1 by (rule map_le_implies_dom_le)
    have d2: "dom (cache st1) \<subseteq> dom (cache st')" using n4 by (rule map_le_implies_dom_le)
    let ?new = "load_reads rp (cache st) @ new"
    have a: "reads st' = reads st @ ?new" using n1 c1 by simp
    have b: "distinct ?new" using n2 n3 sub1 by (auto simp: load_reads_def split: option.splits)
    have c: "set ?new \<inter> dom (cache st) = {}" using fresh1 n3 d1 by (simp add: Int_Un_distrib2) blast
    have d: "cache st \<subseteq>\<^sub>m cache st'" using le1 n4 by (rule map_le_trans)
    have e: "dom (cache st') \<subseteq> dom (cache st) \<union> set ?new" using n5 dom1 by auto
    have f: "res = None \<longrightarrow> set ?new \<subseteq> dom (cache st') \<and> fst ` set (g # gs) \<subseteq> dom (cache st')"
      using n6 sub1 d2 in1 g by auto
    have h: "\<forall>x. report_table fs (cache st') x = report_table fs (cache st) x"
      using n7 tab1 by simp
    have i: "\<forall>x df. cache st' x = Some df \<longrightarrow>
                    cache st x = Some df \<or> (x \<in> set ?new \<and> pd_read_excel fs x None = Inr df)"
      using n8 from1 by fastforce
    have j: "\<forall>x df. x \<in> set ?new \<and> pd_read_excel fs x None = Inr df \<longrightarrow> cache st' x = Some df"
    proof (intro allI impI)
      fix x df assume xd: "x \<in> set ?new \<and> pd_read_excel fs x None = Inr df"
      show "cache st' x = Some df"
      proof (cases "x \<in> set new")
        case True
        then show ?thesis using n9 xd by blast
      next
        case False
        then have "x \<in> set (load_reads rp (cache st))" using xd by simp
        then have "cache st1 x = Some df" using store1 xd by blast
        then show ?thesis using n4 by (auto simp: map_le_def dom_def)
      qed
    qed
    show ?thesis using a b c d e f h i j by blast
  qed
qed

lemma generate_cache:
  fixes fs :: disk
  defines "out \<equiv> \<lambda>fs t o' ms fund c. generate_populated_template fs t o' ms fund (Some c)"
  shows "distinct (read_log (out fs t o' ms fund c)) \<and>
     set (read_log (out fs t o' ms fund c)) \<inter> dom c = {} \<and>
     c \<subseteq>\<^sub>m cache_after (out fs t o' ms fund c) \<and>
     dom (cache_after (out fs t o' ms fund c)) \<subseteq> dom c \<union> set (read_log (out fs t o' ms fund c)) \<and>
     (\<forall>c1. returned (out fs t o' ms fund c) = Inr c1 \<longrightarrow>
        c1 = cache_after (out fs t o' ms fund c) \<and> set (read_log (out fs t o' ms fund c)) \<subseteq> dom c1) \<and>
     (\<forall>fs1 x df. copy2 fs t o' = Inr fs1 \<and> x \<in> set (read_log (out fs t o' ms fund c)) \<and>
        pd_read_excel fs1 x None = Inr df \<longrightarrow> cache_after (out fs t o' ms fund c) x = Some df)"
proof (cases "copy2 fs t o'")
  case (Inl e)
  then show ?thesis by (simp add: out_def generate_populated_template_unfold)
next
  case (Inr fs1)
  show ?thesis
  proof (cases "books_open fs1 o'")
    case (Inl e)
    then show ?thesis using Inr by (simp add: out_def generate_populated_template_unfold)
  next
    case wb: (Inr wb)
    let ?st0 = "\<lparr>book = wb, cache = c, reads = [], writes = []\<rparr>"
    obtain res st where run: "process_reports fs1 fund (group_by_report ms) ?st0 = (res, st)"
      by (cases "process_reports fs1 fund (group_by_report ms) ?st0")
    from process_reports_cache [OF run] obtain new where
      n1: "reads st = new" and n2: "distinct new" and n3: "set new \<inter> dom c = {}"
      and n4: "c \<subseteq>\<^sub>m cache st" and n5: "dom (cache st) \<subseteq> dom c \<union> set new"
      and n6: "res = None \<longrightarrow> set new \<subseteq> dom (cache st)"
      and n9: "\<forall>x df. x \<in> set new \<and> pd_read_excel fs1 x None = Inr df \<longrightarrow> cache st x = Some df"
      by auto
    show ?thesis
    proof (cases res)
      case None
      then show ?thesis using Inr wb run n1 n2 n3 n4 n5 n6 n9
        by (simp add: out_def generate_populated_template_unfold)
    next
      case (Some e)
      then show ?thesis using Inr wb run n1 n2 n3 n4 n5 n9
        by (simp add: out_def generate_populated_template_unfold)
    qed
  qed
qed

lemma generate_seq_cache:
  "generate_seq fs c calls log = Inr (c', fs', log') \<Longrightarrow>
     \<exists>new. log' = log @ new \<and> distinct new \<and> set new \<inter> dom c = {} \<and> c \<subseteq>\<^sub>m c' \<and>
           set new \<subseteq> dom c'"
proof (induction calls arbitrary: fs c log)
  case Nil
  then show ?case by simp
next
  case (Cons call calls)
  obtain t o' ms fund where call: "call = (t, o', ms, fund)" by (cases call)
  let ?out = "generate_populated_template fs t o' ms fund (Some c)"
  from Cons.prems call obtain c1 where ret: "returned ?out = Inr c1"
    and rest: "generate_seq (disk_after ?out) c1 calls (log @ read_log ?out) = Inr (c', fs', log')"
    by (auto simp: Let_def split: sum.splits)
  note g = generate_cache [of fs t o' ms fund c]
  have g1: "distinct (read_log ?out)" and g2: "set (read_log ?out) \<inter> dom c = {}"
    and g3: "c \<subseteq>\<^sub>m cache_after ?out"
    using g by blast+
  have g45: "c1 = cache_after ?out \<and> set (read_log ?out) \<subseteq> dom c1"
    using g ret by blast
  have g4: "c1 = cache_after ?out" and g5: "set (read_log ?out) \<subseteq> dom c1"
    using g45 by blast+
  from Cons.IH [OF rest] obtain new where
    n1: "log' = (log @ read_log ?out) @ new" and n2: "distinct new"
    and n3: "set new \<inter> dom c1 = {}" and n4: "c1 \<subseteq>\<^sub>m c'" and n5: "set new \<subseteq> dom c'"
    by blast
  have d1: "dom c \<subseteq> dom c1" using g3 g4 by (simp add: map_le_implies_dom_le)
  have d2: "dom c1 \<subseteq> dom c'" using n4 by (rule map_le_implies_dom_le)
  let ?new = "read_log ?out @ new"
  have "log' = log @ ?new" using n1 by simp
  moreover have "distinct ?new" using g1 n2 n3 g5 by auto
  moreover have "set ?new \<inter> dom c = {}" using g2 n3 d1 by (simp add: Int_Un_distrib2) blast
  moreover have "c \<subseteq>\<^sub>m c'" using g3 g4 n4 map_le_trans by blast
  moreover have "set ?new \<subseteq> dom c'" using g5 d2 n5 by auto
  ultimately show ?case by blast
qed

text \<open>
  C4. A call with the cache \<open>c\<close> reads no report that \<open>c\<close> holds and none twice, keeps
  every entry of \<open>c\<close> as it is, adds entries only for reports it read, stores the table of
  every read that succeeded, and returns the cache it leaves behind, which then holds
  every report it read. Over calls that each get the cache the previous one returned, no
  report is read twice, none that the first cache held is read, and the last cache
  extends the first and holds every report read.
\<close>

theorem generate_cache_reuse:
  "distinct (read_log (generate_populated_template fs t out ms fund (Some c)))
   \<and> set (read_log (generate_populated_template fs t out ms fund (Some c))) \<inter> dom c = {}
   \<and> c \<subseteq>\<^sub>m cache_after (generate_populated_template fs t out ms fund (Some c))
   \<and> dom (cache_after (generate_populated_template fs t out ms fund (Some c)))
       \<subseteq> dom c \<union> set (read_log (generate_populated_template fs t out ms fund (Some c)))
   \<and> (\<forall>c1. returned (generate_populated_template fs t out ms fund (Some c)) = Inr c1 \<longrightarrow>
         c1 = cache_after (generate_populated_template fs t out ms fund (Some c))
         \<and> set (read_log (generate_populated_template fs t out ms fund (Some c))) \<subseteq> dom c1)
   \<and> (\<forall>fs1 x df. copy2 fs t out = Inr fs1
          \<and> x \<in> set (read_log (generate_populated_template fs t out ms fund (Some c)))
          \<and> pd_read_excel fs1 x None = Inr df \<longrightarrow>
          cache_after (generate_populated_template fs t out ms fund (Some c)) x = Some df)
   \<and> (\<forall>c' fs' log. generate_seq fs c calls [] = Inr (c', fs', log) \<longrightarrow>
          distinct log \<and> set log \<inter> dom c = {} \<and> c \<subseteq>\<^sub>m c' \<and> set log \<subseteq> dom c')"
proof -
  have seq: "\<forall>c' fs' log. generate_seq fs c calls [] = Inr (c', fs', log) \<longrightarrow>
          distinct log \<and> set log \<inter> dom c = {} \<and> c \<subseteq>\<^sub>m c' \<and> set log \<subseteq> dom c'"
  proof (intro allI impI)
    fix c' fs' log
    assume "generate_seq fs c calls [] = Inr (c', fs', log)"
    from generate_seq_cache [OF this]
    show "distinct log \<and> set log \<inter> dom c = {} \<and> c \<subseteq>\<^sub>m c' \<and> set log \<subseteq> dom c'" by auto
  qed
  show ?thesis
    using generate_cache [of fs t out ms fund c] seq by blast
qed

theorem generate_cache_reuse_witness:
  "(case generate_seq gen_disk Map.empty
           [(''template.xlsx'', ''out_FundA.xlsx'', two_mappings, ''FundA''),
            (''template.xlsx'', ''out_FundB.xlsx'', two_mappings, ''FundB'')] [] of
      Inl e \<Rightarrow> False
    | Inr (c', fs', log) \<Rightarrow> log = [''R1.xlsx''] \<and> ''R1.xlsx'' \<in> dom c')"
proof -
  let ?calls = "[(''template.xlsx'', ''out_FundA.xlsx'', two_mappings, ''FundA''),
            (''template.xlsx'', ''out_FundB.xlsx'', two_mappings, ''FundB'')]"
  have run: "(case generate_seq gen_disk Map.empty ?calls [] of
      Inl e \<Rightarrow> False | Inr (c', fs', log) \<Rightarrow> log = [''R1.xlsx''])"
    by code_simp
  then obtain c' fs' where res: "generate_seq gen_disk Map.empty ?calls [] = Inr (c', fs', [''R1.xlsx''])"
    by (auto split: sum.splits)
  have "set [''R1.xlsx''] \<subseteq> dom c'"
    using generate_cache_reuse [of gen_disk _ _ _ _ Map.empty ?calls] res by blast
  then show ?thesis using res by simp
qed

section \<open>Generation without matching rows\<close>

lemma mask_filter:
  "map fst (filter (\<lambda>(r, c). P c) (zip xs (map f xs))) = filter (\<lambda>r. P (f r)) xs"
  by (induction xs) auto

lemma filter_rows_eq:
  "filter_rows df fund =
     (if columns df = [] then Inl (IndexError ''single positional indexer is out-of-bounds'')
      else Inr (df\<lparr>rows := filter (\<lambda>r. cell_eq (cell0 r) fund) (rows df)\<rparr>))"
  by (simp add: filter_rows_def iloc_col0_def mask_filter)

lemma process_report_no_match:
  assumes "no_match fs (cache st) fund rp"
  shows "process_report fs fund (rp, ms) st =
           (None, st\<lparr>cache := load_cache fs rp (cache st),
                     reads := reads st @ load_reads rp (cache st)\<rparr>)"
proof -
  from assms obtain df where tab: "report_table fs (cache st) rp = Inr df"
    and cols: "columns df \<noteq> []"
    and none: "list_all (\<lambda>r. \<not> cell_eq (cell0 r) fund) (rows df)"
    by (auto simp: no_match_def split: sum.splits)
  have "filter (\<lambda>r. cell_eq (cell0 r) fund) (rows df) = []"
    using none by (simp add: list_all_iff filter_empty_conv)
  then show ?thesis using tab cols
    by (simp add: process_report_unfold load_report_eq filter_rows_eq df_empty_def Let_def)
qed

lemma no_match_load_cache:
  "no_match fs (load_cache fs rp c) fund x = no_match fs c fund x"
  by (simp add: no_match_def report_table_load_cache)

lemma process_reports_no_match:
  "\<forall>rp\<in>fst ` set gs. no_match fs (cache st) fund rp \<Longrightarrow>
     \<exists>st'. process_reports fs fund gs st = (None, st') \<and> book st' = book st \<and> writes st' = writes st"
proof (induction gs arbitrary: st)
  case Nil
  show ?case by simp
next
  case (Cons g gs)
  obtain rp ms where g: "g = (rp, ms)" by (cases g)
  let ?st1 = "st\<lparr>cache := load_cache fs rp (cache st), reads := reads st @ load_reads rp (cache st)\<rparr>"
  have step: "process_report fs fund (rp, ms) st = (None, ?st1)"
    using Cons.prems g by (intro process_report_no_match) simp
  have "\<forall>x\<in>fst ` set gs. no_match fs (cache ?st1) fund x"
    using Cons.prems by (simp add: no_match_load_cache)
  from Cons.IH [OF this] obtain st' where
    "process_reports fs fund gs ?st1 = (None, st')" "book st' = book ?st1" "writes st' = writes ?st1"
    by blast
  then show ?case using g step by simp
qed

lemma append_group_keys: "fst ` set (append_group k v d) = insert k (fst ` set d)"
proof -
  have "set (map fst (append_group k v d)) = insert k (set (map fst d))"
    unfolding append_group_def by (auto simp: update_keys)
  then show ?thesis by simp
qed

lemma fold_append_group_keys:
  "fst ` set (fold (\<lambda>(k, info). append_group (report info) (k, info)) ms d) =
     fst ` set d \<union> (\<lambda>(k, info). report info) ` set ms"
proof (induction ms arbitrary: d)
  case Nil
  show ?case by simp
next
  case (Cons m ms)
  obtain k info where m: "m = (k, info)" by (cases m)
  show ?case by (simp add: Cons.IH m append_group_keys)
qed

lemma group_by_report_keys:
  "fst ` set (group_by_report ms) = (\<lambda>(k, info). report info) ` set ms"
  by (simp add: group_by_report_def fold_append_group_keys)

lemma generate_no_match:
  assumes tmpl: "fs t = Some (Excel wb)" and diff: "t \<noteq> out"
    and nm: "\<forall>(k, info)\<in>set ms.
               no_match (fs(out \<mapsto> Excel wb)) (case rc of None \<Rightarrow> Map.empty | Some c \<Rightarrow> c) fund (report info)"
  shows "write_log (generate_populated_template fs t out ms fund rc) = []
         \<and> returned (generate_populated_template fs t out ms fund rc) =
             Inr (cache_after (generate_populated_template fs t out ms fund rc))
         \<and> disk_after (generate_populated_template fs t out ms fund rc) = fs(out \<mapsto> Excel wb)"
proof -
  let ?fs1 = "fs(out \<mapsto> Excel wb)"
  let ?c0 = "case rc of None \<Rightarrow> Map.empty | Some c \<Rightarrow> c"
  let ?st0 = "\<lparr>book = wb, cache = ?c0, reads = [], writes = []\<rparr>"
  have cp: "copy2 fs t out = Inr ?fs1" using tmpl diff by (simp add: copy2_def)
  have op: "books_open ?fs1 out = Inr wb" by (simp add: books_open_def)
  have "\<forall>rp\<in>fst ` set (group_by_report ms). no_match ?fs1 (cache ?st0) fund rp"
    using nm by (auto simp: group_by_report_keys)
  from process_reports_no_match [OF this] obtain st' where
    run: "process_reports ?fs1 fund (group_by_report ms) ?st0 = (None, st')"
    and b: "book st' = wb" and w: "writes st' = []"
    by auto
  show ?thesis
    using cp op run b w by (simp add: generate_populated_template_unfold)
qed

lemma strip_idem: "strip (strip s) = strip s"
proof -
  define t where "t = dropWhile is_space s"
  define u where "u = dropWhile is_space (rev t)"
  have su: "strip s = rev u" by (simp add: strip_def t_def u_def)
  have t_hd: "t = [] \<or> \<not> is_space (hd t)"
    using hd_dropWhile [of is_space s] by (auto simp: t_def)
  have u_hd: "u = [] \<or> \<not> is_space (hd u)"
    using hd_dropWhile [of is_space "rev t"] by (auto simp: u_def)
  have "rev t = takeWhile is_space (rev t) @ u" by (simp add: u_def)
  then have "rev (rev t) = rev (takeWhile is_space (rev t) @ u)" by simp
  then have t_eq: "t = rev u @ rev (takeWhile is_space (rev t))" by simp
  have ru_hd: "rev u = [] \<or> \<not> is_space (hd (rev u))"
  proof (cases "rev u = []")
    case True
    then show ?thesis by simp
  next
    case False
    then have "hd t = hd (rev u)" using t_eq by (metis hd_append2)
    moreover have "t \<noteq> []" using False t_eq by auto
    ultimately show ?thesis using t_hd by simp
  qed
  have a: "dropWhile is_space (rev u) = rev u"
    using ru_hd by (simp add: dropWhile_eq_self_iff)
  have b: "dropWhile is_space u = u"
    using u_hd by (simp add: dropWhile_eq_self_iff)
  have "strip (rev u) = rev (dropWhile is_space (rev (dropWhile is_space (rev u))))"
    by (simp only: strip_def)
  also have "\<dots> = rev (dropWhile is_space (rev (rev u)))" by (simp only: a)
  also have "\<dots> = rev u" by (simp add: b)
  finally show ?thesis by (simp only: su)
qed

lemma clean_code_clean:
  assumes "clean_code cl = Some F"
  shows "clean_code (Text F) = Some F"
proof -
  have F: "F = strip (str_cell cl)" and ne: "F \<noteq> []" and nn: "lower F \<noteq> ''nan''"
    using assms by (auto simp: clean_code_def Let_def split: if_splits)
  have "strip F = F" using F strip_idem by simp
  then show ?thesis using ne nn by (simp add: clean_code_def notna_def)
qed

lemma get_fund_codes_clean:
  assumes "get_fund_codes fs p = Inr codes" and "F \<in> set codes"
  shows "\<exists>cl. clean_code cl = Some F"
proof -
  from assms obtain col where "F \<in> set (List.map_filter clean_code col)"
    by (auto simp: get_fund_codes_def split: sum.splits if_splits)
  then show ?thesis by (auto simp: List.map_filter_def)
qed

lemma cell_eq_Text: "cell_eq cl F = (cl = Text F)"
  by (cases cl) auto

text \<open>
  C2. When the template is a workbook at another path than the output and, for every
  mapping, the report can be loaded, has a first column and has no row whose first cell
  is the fund code, the generation makes no paste and returns, the output file has the
  content of the template, and no other file changes.
\<close>

theorem generate_without_matching_rows:
  assumes tmpl: "fs template_path = Some (Excel wb)"
    and diff: "template_path \<noteq> output_path"
    and nm: "\<forall>(key, info)\<in>set report_mappings.
               no_match (fs(output_path \<mapsto> Excel wb))
                 (case report_cache of None \<Rightarrow> Map.empty | Some c \<Rightarrow> c) fund_code (report info)"
  shows "write_log (generate_populated_template fs template_path output_path report_mappings fund_code report_cache) = []
     \<and> (\<exists>c. returned (generate_populated_template fs template_path output_path report_mappings fund_code report_cache) = Inr c)
     \<and> disk_after (generate_populated_template fs template_path output_path report_mappings fund_code report_cache)
         output_path = fs template_path
     \<and> (\<forall>p. p \<noteq> output_path \<longrightarrow>
          disk_after (generate_populated_template fs template_path output_path report_mappings fund_code report_cache) p
            = fs p)"
  using generate_no_match [OF tmpl diff nm] tmpl by simp

theorem generate_without_matching_rows_witness:
  "write_log (generate_populated_template gen_disk ''template.xlsx'' ''out_FundC.xlsx''
                two_mappings ''FundC'' None) = []
   \<and> (\<exists>c. returned (generate_populated_template gen_disk ''template.xlsx'' ''out_FundC.xlsx''
                two_mappings ''FundC'' None) = Inr c)
   \<and> disk_after (generate_populated_template gen_disk ''template.xlsx'' ''out_FundC.xlsx''
                two_mappings ''FundC'' None) ''out_FundC.xlsx''
       = Some (Excel [(''Summary'', summary_sheet), (''Detail'', [])])"
proof -
  let ?wb = "[(''Summary'', summary_sheet), (''Detail'', [])]"
  have tmpl: "gen_disk ''template.xlsx'' = Some (Excel ?wb)"
    by (simp add: gen_disk_def)
  have diff: "''template.xlsx'' \<noteq> ''out_FundC.xlsx''" by simp
  have "list_all (\<lambda>(key, info). no_match (gen_disk(''out_FundC.xlsx'' \<mapsto> Excel ?wb))
            (case None of None \<Rightarrow> Map.empty | Some c \<Rightarrow> c) ''FundC'' (report info)) two_mappings"
    by code_simp
  then have nm: "\<forall>(key, info)\<in>set two_mappings.
               no_match (gen_disk(''out_FundC.xlsx'' \<mapsto> Excel ?wb))
                 (case None of None \<Rightarrow> Map.empty | Some c \<Rightarrow> c) ''FundC'' (report info)"
    by (simp add: list_all_iff)
  show ?thesis
    using generate_without_matching_rows [OF tmpl diff nm] tmpl by simp
qed

text \<open>
  C10. The extraction cleans a cell with \<^verbatim>\<open>str\<close> and \<^verbatim>\<open>strip\<close> (\<open>clean_code\<close>); the row
  filter compares the cell itself with the fund code (\<open>cell_eq\<close>). For a fund code that
  an extraction returned: when in every mapped report (loaded, with a first column) each
  first cell that cleans to the fund code is a number or a string with whitespace around
  it, the filter keeps no row of any of these reports, the generation makes no paste and
  returns, and the output file has the content of the template.
\<close>

theorem extracted_code_matches_no_raw_cell:
  assumes tmpl: "fs template_path = Some (Excel wb)"
    and diff: "template_path \<noteq> output_path"
    and extracted: "get_fund_codes fs' file_path = Inr codes" "fund_code \<in> set codes"
    and cells: "\<forall>(key, info)\<in>set report_mappings.
           \<exists>df. report_table (fs(output_path \<mapsto> Excel wb))
                   (case report_cache of None \<Rightarrow> Map.empty | Some c \<Rightarrow> c) (report info) = Inr df
                \<and> columns df \<noteq> []
                \<and> (\<forall>r\<in>set (rows df). clean_code (cell0 r) = Some fund_code \<longrightarrow>
                      (\<exists>i. cell0 r = Number i) \<or> (\<exists>s. cell0 r = Text s \<and> strip s \<noteq> s))"
  shows "(\<forall>(key, info)\<in>set report_mappings.
           \<exists>df filtered. report_table (fs(output_path \<mapsto> Excel wb))
                   (case report_cache of None \<Rightarrow> Map.empty | Some c \<Rightarrow> c) (report info) = Inr df
                \<and> filter_rows df fund_code = Inr filtered \<and> rows filtered = [])
     \<and> write_log (generate_populated_template fs template_path output_path report_mappings fund_code report_cache) = []
     \<and> (\<exists>c. returned (generate_populated_template fs template_path output_path report_mappings fund_code report_cache) = Inr c)
     \<and> disk_after (generate_populated_template fs template_path output_path report_mappings fund_code report_cache)
         output_path = fs template_path"
proof -
  let ?fs1 = "fs(output_path \<mapsto> Excel wb)"
  let ?c0 = "case report_cache of None \<Rightarrow> Map.empty | Some c \<Rightarrow> c"
  from get_fund_codes_clean [OF extracted] obtain cl where "clean_code cl = Some fund_code" ..
  then have clean: "clean_code (Text fund_code) = Some fund_code" by (rule clean_code_clean)
  then have trimmed: "strip fund_code = fund_code"
    by (auto simp: clean_code_def Let_def split: if_splits)
  have each: "\<forall>(key, info)\<in>set report_mappings.
      (\<exists>df filtered. report_table ?fs1 ?c0 (report info) = Inr df
          \<and> filter_rows df fund_code = Inr filtered \<and> rows filtered = [])
      \<and> no_match ?fs1 ?c0 fund_code (report info)"
  proof (intro ballI, clarify)
    fix key info assume "(key, info) \<in> set report_mappings"
    with cells obtain df where tab: "report_table ?fs1 ?c0 (report info) = Inr df"
      and cols: "columns df \<noteq> []"
      and raw: "\<forall>r\<in>set (rows df). clean_code (cell0 r) = Some fund_code \<longrightarrow>
                      (\<exists>i. cell0 r = Number i) \<or> (\<exists>s. cell0 r = Text s \<and> strip s \<noteq> s)"
      by blast
    have none: "\<forall>r\<in>set (rows df). \<not> cell_eq (cell0 r) fund_code"
    proof
      fix r assume r: "r \<in> set (rows df)"
      show "\<not> cell_eq (cell0 r) fund_code"
      proof
        assume "cell_eq (cell0 r) fund_code"
        then have eq: "cell0 r = Text fund_code" by (simp add: cell_eq_Text)
        then have "clean_code (cell0 r) = Some fund_code" using clean by simp
        with raw r have "(\<exists>i. cell0 r = Number i) \<or> (\<exists>s. cell0 r = Text s \<and> strip s \<noteq> s)"
          by blast
        then show False using eq trimmed by auto
      qed
    qed
    then have empty: "filter (\<lambda>r. cell_eq (cell0 r) fund_code) (rows df) = []"
      by (simp add: filter_empty_conv)
    have "filter_rows df fund_code = Inr (df\<lparr>rows := []\<rparr>)"
      using cols empty by (simp add: filter_rows_eq)
    moreover have "no_match ?fs1 ?c0 fund_code (report info)"
      using tab cols none by (simp add: no_match_def list_all_iff)
    ultimately show "(\<exists>df filtered. report_table ?fs1 ?c0 (report info) = Inr df
          \<and> filter_rows df fund_code = Inr filtered \<and> rows filtered = [])
      \<and> no_match ?fs1 ?c0 fund_code (report info)"
      using tab by simp
  qed
  then have nm: "\<forall>(key, info)\<in>set report_mappings. no_match ?fs1 ?c0 fund_code (report info)"
    by blast
  have first: "\<forall>(key, info)\<in>set report_mappings.
           \<exists>df filtered. report_table ?fs1 ?c0 (report info) = Inr df
                \<and> filter_rows df fund_code = Inr filtered \<and> rows filtered = []"
    using each by blast
  show ?thesis
    using generate_no_match [OF tmpl diff nm] tmpl first by simp
qed

theorem extracted_code_matches_no_raw_cell_witness:
  "get_fund_codes padded_disk ''R3.xlsx'' = Inr [''42'', ''FundB'']
   \<and> write_log (generate_populated_template padded_disk ''template.xlsx'' ''out_FundB.xlsx''
                  padded_mappings ''FundB'' None) = []
   \<and> disk_after (generate_populated_template padded_disk ''template.xlsx'' ''out_FundB.xlsx''
                  padded_mappings ''FundB'' None) ''out_FundB.xlsx''
       = Some (Excel [(''Summary'', summary_sheet), (''Detail'', [])])"
proof -
  let ?wb = "[(''Summary'', summary_sheet), (''Detail'', [])]"
  have tmpl: "padded_disk ''template.xlsx'' = Some (Excel ?wb)"
    by (simp add: padded_disk_def)
  have diff: "''template.xlsx'' \<noteq> ''out_FundB.xlsx''" by simp
  have codes: "get_fund_codes padded_disk ''R3.xlsx'' = Inr [''42'', ''FundB'']"
    by code_simp
  have mem: "''FundB'' \<in> set [''42'', ''FundB'']" by simp
  have tab: "report_table (padded_disk(''out_FundB.xlsx'' \<mapsto> Excel ?wb)) Map.empty ''R3.xlsx'' =
             Inr \<lparr>columns = [Text ''Fund'', Text ''Value''],
                  rows = [[Text ''FundA'', Number 1], [Text '' FundB '', Number 2], [Number 42, Number 3]]\<rparr>"
    by code_simp
  have a: "clean_code (Text ''FundA'') \<noteq> Some ''FundB''" by code_simp
  have b: "strip '' FundB '' \<noteq> '' FundB ''" by code_simp
  have "\<forall>(key, info)\<in>set padded_mappings.
           \<exists>df. report_table (padded_disk(''out_FundB.xlsx'' \<mapsto> Excel ?wb)) Map.empty (report info) = Inr df
                \<and> columns df \<noteq> []
                \<and> (\<forall>r\<in>set (rows df). clean_code (cell0 r) = Some ''FundB'' \<longrightarrow>
                      (\<exists>i. cell0 r = Number i) \<or> (\<exists>s. cell0 r = Text s \<and> strip s \<noteq> s))"
    using a b by (simp add: padded_mappings_def tab cell0_def)
  then have cells: "\<forall>(key, info)\<in>set padded_mappings.
           \<exists>df. report_table (padded_disk(''out_FundB.xlsx'' \<mapsto> Excel ?wb))
                   (case None of None \<Rightarrow> Map.empty | Some c \<Rightarrow> c) (report info) = Inr df
                \<and> columns df \<noteq> []
                \<and> (\<forall>r\<in>set (rows df). clean_code (cell0 r) = Some ''FundB'' \<longrightarrow>
                      (\<exists>i. cell0 r = Number i) \<or> (\<exists>s. cell0 r = Text s \<and> strip s \<noteq> s))"
    by simp
  show ?thesis
    using extracted_code_matches_no_raw_cell [OF tmpl diff codes mem cells] tmpl codes by simp
qed

section \<open>Failures of a generation\<close>

text \<open>
  Where a loop raises: at its first failing element, the elements before it having been
  done. A sheet's pastes fail at the first paste that fails; the sheets fail at the
  first sheet that is missing or whose pastes fail; the grouping by sheet fails when
  a mapping key does not split at \<^verbatim>\<open>!\<close> into a sheet and a cell.
\<close>

lemma write_cells_append:
  "write_cells sn (sh, dn) (xs @ ys) =
     (case write_cells sn (sh, dn) xs of
        Inl e \<Rightarrow> Inl e
      | Inr (sh', dn') \<Rightarrow> write_cells sn (sh', dn') ys)"
proof (induction xs arbitrary: sh dn)
  case Nil
  show ?case by simp
next
  case (Cons x xs)
  obtain cref vals where x: "x = (cref, vals)" by (cases x)
  show ?case by (simp add: x Cons.IH split: sum.splits)
qed

lemma write_cells_fails:
  "(write_cells sn (sh, dn) cells = Inl e) =
     (\<exists>before cref vals after sh_k dn_k.
        cells = before @ (cref, vals) # after \<and>
        write_cells sn (sh, dn) before = Inr (sh_k, dn_k) \<and>
        paste_values sh_k cref vals = Inl e)"
proof
  assume "write_cells sn (sh, dn) cells = Inl e"
  then show "\<exists>before cref vals after sh_k dn_k.
        cells = before @ (cref, vals) # after \<and>
        write_cells sn (sh, dn) before = Inr (sh_k, dn_k) \<and>
        paste_values sh_k cref vals = Inl e"
  proof (induction cells arbitrary: sh dn)
    case Nil
    then show ?case by simp
  next
    case (Cons x cells)
    obtain cref vals where x: "x = (cref, vals)" by (cases x)
    show ?case
    proof (cases "paste_values sh cref vals")
      case (Inl e0)
      then have "e0 = e" using Cons.prems x by simp
      then have "x # cells = [] @ (cref, vals) # cells \<and>
                 write_cells sn (sh, dn) [] = Inr (sh, dn) \<and> paste_values sh cref vals = Inl e"
        using Inl x by simp
      then show ?thesis by blast
    next
      case (Inr sh1)
      then have "write_cells sn (sh1, dn @ [(sn, cref, vals)]) cells = Inl e"
        using Cons.prems x by simp
      from Cons.IH [OF this] obtain before c v after sh_k dn_k where
        d: "cells = before @ (c, v) # after"
        and w: "write_cells sn (sh1, dn @ [(sn, cref, vals)]) before = Inr (sh_k, dn_k)"
        and f: "paste_values sh_k c v = Inl e"
        by blast
      have "x # cells = (x # before) @ (c, v) # after" using d by simp
      moreover have "write_cells sn (sh, dn) (x # before) = Inr (sh_k, dn_k)"
        using w Inr x by simp
      ultimately show ?thesis using f by blast
    qed
  qed
next
  assume "\<exists>before cref vals after sh_k dn_k.
        cells = before @ (cref, vals) # after \<and>
        write_cells sn (sh, dn) before = Inr (sh_k, dn_k) \<and>
        paste_values sh_k cref vals = Inl e"
  then show "write_cells sn (sh, dn) cells = Inl e"
    by (auto simp: write_cells_append)
qed

lemma write_sheets_append:
  "write_sheets (wb, dn) (xs @ ys) =
     (case write_sheets (wb, dn) xs of
        Inl e \<Rightarrow> Inl e
      | Inr (wb', dn') \<Rightarrow> write_sheets (wb', dn') ys)"
proof (induction xs arbitrary: wb dn)
  case Nil
  show ?case by simp
next
  case (Cons x xs)
  obtain sn cells where x: "x = (sn, cells)" by (cases x)
  show ?case by (simp add: x Cons.IH split: sum.splits option.splits)
qed

lemma write_sheets_fails:
  "(write_sheets (wb, dn) sm = Inl e) =
     (\<exists>before sn cells after wb_k dn_k.
        sm = before @ (sn, cells) # after \<and>
        write_sheets (wb, dn) before = Inr (wb_k, dn_k) \<and>
        (case map_of wb_k sn of
           None \<Rightarrow> e = ExcelError (''no sheet named '' @ sn)
         | Some sh \<Rightarrow> write_cells sn (sh, dn_k) cells = Inl e))"
proof
  assume "write_sheets (wb, dn) sm = Inl e"
  then show "\<exists>before sn cells after wb_k dn_k.
        sm = before @ (sn, cells) # after \<and>
        write_sheets (wb, dn) before = Inr (wb_k, dn_k) \<and>
        (case map_of wb_k sn of
           None \<Rightarrow> e = ExcelError (''no sheet named '' @ sn)
         | Some sh \<Rightarrow> write_cells sn (sh, dn_k) cells = Inl e)"
  proof (induction sm arbitrary: wb dn)
    case Nil
    then show ?case by simp
  next
    case (Cons x sm)
    obtain sn cells where x: "x = (sn, cells)" by (cases x)
    have here: "x # sm = [] @ (sn, cells) # sm \<and> write_sheets (wb, dn) [] = Inr (wb, dn)"
      using x by simp
    show ?case
    proof (cases "map_of wb sn")
      case None
      then have "e = ExcelError (''no sheet named '' @ sn)" using Cons.prems x by simp
      then have "case map_of wb sn of
           None \<Rightarrow> e = ExcelError (''no sheet named '' @ sn)
         | Some sh \<Rightarrow> write_cells sn (sh, dn) cells = Inl e"
        using None by simp
      then show ?thesis using here by blast
    next
      case (Some sh)
      show ?thesis
      proof (cases "write_cells sn (sh, dn) cells")
        case (Inl e0)
        then have "e0 = e" using Cons.prems x Some by simp
        then have "case map_of wb sn of
           None \<Rightarrow> e = ExcelError (''no sheet named '' @ sn)
         | Some sh \<Rightarrow> write_cells sn (sh, dn) cells = Inl e"
          using Some Inl by simp
        then show ?thesis using here by blast
      next
        case (Inr r)
        obtain sh1 dn1 where r: "r = (sh1, dn1)" by (cases r)
        have "write_sheets (AList.update sn sh1 wb, dn1) sm = Inl e"
          using Cons.prems x Some Inr r by simp
        from Cons.IH [OF this] obtain before sn' cells' after wb_k dn_k where
          d: "sm = before @ (sn', cells') # after"
          and w: "write_sheets (AList.update sn sh1 wb, dn1) before = Inr (wb_k, dn_k)"
          and f: "case map_of wb_k sn' of
                    None \<Rightarrow> e = ExcelError (''no sheet named '' @ sn')
                  | Some sh \<Rightarrow> write_cells sn' (sh, dn_k) cells' = Inl e"
          by blast
        have "x # sm = (x # before) @ (sn', cells') # after" using d by simp
        moreover have "write_sheets (wb, dn) (x # before) = Inr (wb_k, dn_k)"
          using w x Some Inr r by simp
        ultimately show ?thesis using f by blast
      qed
    qed
  qed
next
  assume "\<exists>before sn cells after wb_k dn_k.
        sm = before @ (sn, cells) # after \<and>
        write_sheets (wb, dn) before = Inr (wb_k, dn_k) \<and>
        (case map_of wb_k sn of
           None \<Rightarrow> e = ExcelError (''no sheet named '' @ sn)
         | Some sh \<Rightarrow> write_cells sn (sh, dn_k) cells = Inl e)"
  then show "write_sheets (wb, dn) sm = Inl e"
    by (auto simp: write_sheets_append split: option.splits)
qed

lemma group_by_sheet_fails:
  "(group_by_sheet ms vals acc = Inl e) =
     (\<exists>key info. (key, info) \<in> set ms \<and> unpack2 (split_on CHR ''!'' key) = Inl e)"
proof (induction ms arbitrary: acc)
  case Nil
  show ?case by simp
next
  case (Cons m ms)
  obtain key info where m: "m = (key, info)" by (cases m)
  have const: "\<And>k1 k2 e1 e2. unpack2 (split_on CHR ''!'' k1) = Inl e1 \<Longrightarrow>
                 unpack2 (split_on CHR ''!'' k2) = Inl e2 \<Longrightarrow> e1 = e2"
    by (auto simp: unpack2_def split: list.splits)
  show ?case
  proof (cases "unpack2 (split_on CHR ''!'' key)")
    case (Inl e0)
    then show ?thesis using const by (auto simp: m)
  next
    case (Inr p)
    obtain sn cref where p: "p = (sn, cref)" by (cases p)
    show ?thesis using Inr p by (auto simp: m Cons.IH)
  qed
qed

lemma process_report_body_fails:
  "(fst (process_report_body fs fund (rp, ms) st) = Some e) =
     (report_table fs (cache st) rp = Inl e
      \<or> (\<exists>df. report_table fs (cache st) rp = Inr df \<and> filter_rows df fund = Inl e)
      \<or> (\<exists>df filtered. report_table fs (cache st) rp = Inr df
            \<and> filter_rows df fund = Inr filtered \<and> \<not> df_empty filtered
            \<and> group_by_sheet ms (rows filtered) [] = Inl e)
      \<or> (\<exists>df filtered sm. report_table fs (cache st) rp = Inr df
            \<and> filter_rows df fund = Inr filtered \<and> \<not> df_empty filtered
            \<and> group_by_sheet ms (rows filtered) [] = Inr sm
            \<and> write_sheets (book st, writes st) sm = Inl e))"
  by (auto simp: process_report_body_def load_report_eq Let_def
           split: sum.splits if_splits prod.splits)

text \<open>
  The reports fail at the first report whose processing raises, and the handler of
  line 234 puts the path of that report and the text of its exception in the message.
\<close>

lemma process_reports_append:
  "process_reports fs fund (xs @ ys) st =
     (case process_reports fs fund xs st of
        (Some e, st') \<Rightarrow> (Some e, st')
      | (None, st') \<Rightarrow> process_reports fs fund ys st')"
proof (induction xs arbitrary: st)
  case Nil
  show ?case by simp
next
  case (Cons x xs)
  show ?case by (simp add: Cons.IH split: prod.splits option.splits)
qed

lemma process_report_fst:
  "fst (process_report fs fund (rp, ms) st) =
     (case fst (process_report_body fs fund (rp, ms) st) of
        None \<Rightarrow> None
      | Some inner \<Rightarrow> Some (Exception (''Error processing report '' @ rp @ '': '' @ str_exn inner)))"
  by (simp add: process_report_def split: prod.splits option.splits)

lemma process_reports_fails:
  "(fst (process_reports fs fund gs st) = Some e) =
     (\<exists>before rp ms after st_k inner.
        gs = before @ (rp, ms) # after \<and>
        process_reports fs fund before st = (None, st_k) \<and>
        fst (process_report_body fs fund (rp, ms) st_k) = Some inner \<and>
        e = Exception (''Error processing report '' @ rp @ '': '' @ str_exn inner))"
proof
  assume "fst (process_reports fs fund gs st) = Some e"
  then show "\<exists>before rp ms after st_k inner.
        gs = before @ (rp, ms) # after \<and>
        process_reports fs fund before st = (None, st_k) \<and>
        fst (process_report_body fs fund (rp, ms) st_k) = Some inner \<and>
        e = Exception (''Error processing report '' @ rp @ '': '' @ str_exn inner)"
  proof (induction gs arbitrary: st)
    case Nil
    then show ?case by simp
  next
    case (Cons g gs)
    obtain rp ms where g: "g = (rp, ms)" by (cases g)
    obtain r1 st1 where step: "process_report fs fund (rp, ms) st = (r1, st1)"
      by (cases "process_report fs fund (rp, ms) st")
    show ?case
    proof (cases r1)
      case (Some e1)
      then have e1: "e1 = e" using Cons.prems g step by simp
      have "fst (process_report fs fund (rp, ms) st) = Some e" using step Some e1 by simp
      then obtain inner where
        i: "fst (process_report_body fs fund (rp, ms) st) = Some inner"
        and e: "e = Exception (''Error processing report '' @ rp @ '': '' @ str_exn inner)"
        by (auto simp: process_report_fst split: option.splits)
      have "g # gs = [] @ (rp, ms) # gs \<and> process_reports fs fund [] st = (None, st)"
        using g by simp
      then show ?thesis using i e by blast
    next
      case None
      then have "fst (process_reports fs fund gs st1) = Some e"
        using Cons.prems g step by simp
      from Cons.IH [OF this] obtain before rp' ms' after st_k inner where
        d: "gs = before @ (rp', ms') # after"
        and w: "process_reports fs fund before st1 = (None, st_k)"
        and i: "fst (process_report_body fs fund (rp', ms') st_k) = Some inner"
        and e: "e = Exception (''Error processing report '' @ rp' @ '': '' @ str_exn inner)"
        by blast
      have "g # gs = (g # before) @ (rp', ms') # after" using d by simp
      moreover have "process_reports fs fund (g # before) st = (None, st_k)"
        using w g step None by simp
      ultimately show ?thesis using i e by blast
    qed
  qed
next
  assume "\<exists>before rp ms after st_k inner.
        gs = before @ (rp, ms) # after \<and>
        process_reports fs fund before st = (None, st_k) \<and>
        fst (process_report_body fs fund (rp, ms) st_k) = Some inner \<and>
        e = Exception (''Error processing report '' @ rp @ '': '' @ str_exn inner)"
  then obtain before rp ms after st_k inner where
    d: "gs = before @ (rp, ms) # after"
    and w: "process_reports fs fund before st = (None, st_k)"
    and i: "fst (process_report_body fs fund (rp, ms) st_k) = Some inner"
    and e: "e = Exception (''Error processing report '' @ rp @ '': '' @ str_exn inner)"
    by blast
  have "fst (process_report fs fund (rp, ms) st_k) = Some e"
    using i e by (simp add: process_report_fst)
  then have "fst (process_reports fs fund ((rp, ms) # after) st_k) = Some e"
    by (auto split: prod.splits option.splits)
  then show "fst (process_reports fs fund gs st) = Some e"
    using d w by (simp add: process_reports_append)
qed

lemma generate_with_open_fails:
  assumes cp: "copy2 fs t out = Inr fs1" and op: "app_open xl fs1 out = Inl e0"
  shows "returned (generate_with xl fs t out ms fund rc) =
           Inl (Exception (''Error generating populated template: '' @ str_exn e0))"
  using cp op by (simp add: generate_with_def)

lemma generate_with_report_fails:
  assumes cp: "copy2 fs t out = Inr fs1" and op: "app_open xl fs1 out = Inr wb"
    and run: "fst (process_reports fs1 fund (group_by_report ms)
                \<lparr>book = wb, cache = (case rc of None \<Rightarrow> Map.empty | Some c \<Rightarrow> c),
                 reads = [], writes = []\<rparr>) = Some e1"
  shows "returned (generate_with xl fs t out ms fund rc) =
           Inl (Exception (''Error generating populated template: '' @ str_exn e1))"
  using cp op run by (auto simp: generate_with_def split: prod.splits option.splits)

lemma generate_with_save_fails:
  assumes cp: "copy2 fs t out = Inr fs1" and op: "app_open xl fs1 out = Inr wb"
    and run: "fst (process_reports fs1 fund (group_by_report ms)
                \<lparr>book = wb, cache = (case rc of None \<Rightarrow> Map.empty | Some c \<Rightarrow> c),
                 reads = [], writes = []\<rparr>) = None"
    and sv: "save_error xl = Some e0"
  shows "returned (generate_with xl fs t out ms fund rc) =
           Inl (Exception (''Error generating populated template: '' @ str_exn e0))"
  using cp op run sv by (auto simp: generate_with_def split: prod.splits option.splits)

lemma generate_with_returns:
  assumes cp: "copy2 fs t out = Inr fs1" and op: "app_open xl fs1 out = Inr wb"
    and run: "fst (process_reports fs1 fund (group_by_report ms)
                \<lparr>book = wb, cache = (case rc of None \<Rightarrow> Map.empty | Some c \<Rightarrow> c),
                 reads = [], writes = []\<rparr>) = None"
    and sv: "save_error xl = None"
  shows "\<exists>c. returned (generate_with xl fs t out ms fund rc) = Inr c"
  using cp op run sv by (auto simp: generate_with_def split: prod.splits option.splits)

lemma generate_with_raises:
  assumes cp: "copy2 fs t out = Inr fs1"
  shows "(returned (generate_with xl fs t out ms fund rc) = Inl e) =
     ((\<exists>e0. app_open xl fs1 out = Inl e0
          \<and> e = Exception (''Error generating populated template: '' @ str_exn e0))
      \<or> (\<exists>wb before rp rms after st inner.
            app_open xl fs1 out = Inr wb
          \<and> group_by_report ms = before @ (rp, rms) # after
          \<and> process_reports fs1 fund before
                \<lparr>book = wb, cache = (case rc of None \<Rightarrow> Map.empty | Some c \<Rightarrow> c),
                 reads = [], writes = []\<rparr> = (None, st)
          \<and> fst (process_report_body fs1 fund (rp, rms) st) = Some inner
          \<and> e = Exception (''Error generating populated template: '' @
                   ''Error processing report '' @ rp @ '': '' @ str_exn inner))
      \<or> (\<exists>wb st e0.
            app_open xl fs1 out = Inr wb
          \<and> process_reports fs1 fund (group_by_report ms)
                \<lparr>book = wb, cache = (case rc of None \<Rightarrow> Map.empty | Some c \<Rightarrow> c),
                 reads = [], writes = []\<rparr> = (None, st)
          \<and> save_error xl = Some e0
          \<and> e = Exception (''Error generating populated template: '' @ str_exn e0)))"
    (is "?L = (?A \<or> ?B \<or> ?C)")
proof
  assume L: ?L
  show "?A \<or> ?B \<or> ?C"
  proof (cases "app_open xl fs1 out")
    case (Inl e0)
    have "e = Exception (''Error generating populated template: '' @ str_exn e0)"
      using generate_with_open_fails [OF cp Inl, of ms fund rc] L by simp
    then have ?A using Inl by blast
    then show ?thesis by blast
  next
    case (Inr wb)
    let ?st0 = "\<lparr>book = wb, cache = (case rc of None \<Rightarrow> Map.empty | Some c \<Rightarrow> c),
                 reads = [], writes = []\<rparr>"
    obtain res st where run: "process_reports fs1 fund (group_by_report ms) ?st0 = (res, st)"
      by (cases "process_reports fs1 fund (group_by_report ms) ?st0")
    show ?thesis
    proof (cases res)
      case (Some e1)
      have f: "fst (process_reports fs1 fund (group_by_report ms) ?st0) = Some e1"
        using run Some by simp
      have e: "e = Exception (''Error generating populated template: '' @ str_exn e1)"
        using generate_with_report_fails [OF cp Inr f] L by simp
      from f obtain before rp rms after st_k inner where
        d: "group_by_report ms = before @ (rp, rms) # after"
        and w: "process_reports fs1 fund before ?st0 = (None, st_k)"
        and i: "fst (process_report_body fs1 fund (rp, rms) st_k) = Some inner"
        and e1: "e1 = Exception (''Error processing report '' @ rp @ '': '' @ str_exn inner)"
        unfolding process_reports_fails by blast
      have "e = Exception (''Error generating populated template: '' @
                   ''Error processing report '' @ rp @ '': '' @ str_exn inner)"
        using e e1 by simp
      then have ?B using Inr d w i by blast
      then show ?thesis by blast
    next
      case None
      have f: "fst (process_reports fs1 fund (group_by_report ms) ?st0) = None"
        using run None by simp
      show ?thesis
      proof (cases "save_error xl")
        case None': None
        from generate_with_returns [OF cp Inr f None'] L show ?thesis by auto
      next
        case (Some e0)
        have "e = Exception (''Error generating populated template: '' @ str_exn e0)"
          using generate_with_save_fails [OF cp Inr f Some] L by simp
        then have ?C using Inr run None Some by blast
        then show ?thesis by blast
      qed
    qed
  qed
next
  assume "?A \<or> ?B \<or> ?C"
  then consider (a) ?A | (b) ?B | (c) ?C by blast
  then show ?L
  proof cases
    case a
    then obtain e0 where "app_open xl fs1 out = Inl e0"
      and "e = Exception (''Error generating populated template: '' @ str_exn e0)" by blast
    then show ?thesis using generate_with_open_fails [OF cp] by simp
  next
    case b
    then obtain wb before rp rms after st inner where
      op: "app_open xl fs1 out = Inr wb"
      and d: "group_by_report ms = before @ (rp, rms) # after"
      and w: "process_reports fs1 fund before
                \<lparr>book = wb, cache = (case rc of None \<Rightarrow> Map.empty | Some c \<Rightarrow> c),
                 reads = [], writes = []\<rparr> = (None, st)"
      and i: "fst (process_report_body fs1 fund (rp, rms) st) = Some inner"
      and e: "e = Exception (''Error generating populated template: '' @
                   ''Error processing report '' @ rp @ '': '' @ str_exn inner)"
      by blast
    have "fst (process_reports fs1 fund (group_by_report ms)
                \<lparr>book = wb, cache = (case rc of None \<Rightarrow> Map.empty | Some c \<Rightarrow> c),
                 reads = [], writes = []\<rparr>) =
            Some (Exception (''Error processing report '' @ rp @ '': '' @ str_exn inner))"
      unfolding process_reports_fails using d w i by blast
    from generate_with_report_fails [OF cp op this] show ?thesis using e by simp
  next
    case c
    then obtain wb st e0 where
      op: "app_open xl fs1 out = Inr wb"
      and w: "process_reports fs1 fund (group_by_report ms)
                \<lparr>book = wb, cache = (case rc of None \<Rightarrow> Map.empty | Some c \<Rightarrow> c),
                 reads = [], writes = []\<rparr> = (None, st)"
      and sv: "save_error xl = Some e0"
      and e: "e = Exception (''Error generating populated template: '' @ str_exn e0)"
      by blast
    have "fst (process_reports fs1 fund (group_by_report ms)
                \<lparr>book = wb, cache = (case rc of None \<Rightarrow> Map.empty | Some c \<Rightarrow> c),
                 reads = [], writes = []\<rparr>) = None"
      using w by simp
    from generate_with_save_fails [OF cp op this sv] show ?thesis using e by simp
  qed
qed

lemma generate_with_deletes:
  assumes cp: "copy2 fs t out = Inr fs1"
  shows "(\<forall>e. returned (generate_with xl fs t out ms fund rc) = Inl e \<longrightarrow>
            disk_after (generate_with xl fs t out ms fund rc) = fs1(out := None))
       \<and> (\<forall>c. returned (generate_with xl fs t out ms fund rc) = Inr c \<longrightarrow>
            (\<exists>wb. disk_after (generate_with xl fs t out ms fund rc) = fs1(out \<mapsto> Excel wb)))"
  using cp
  by (auto simp: generate_with_def Let_def split: sum.splits prod.splits option.splits)

lemma generate_with_copy_fails:
  "copy2 fs t out = Inl e \<Longrightarrow>
     returned (generate_with xl fs t out ms fund rc) = Inl e \<and>
     disk_after (generate_with xl fs t out ms fund rc) = fs"
  by (simp add: generate_with_def)

text \<open>
  C3. A generation with an Excel \<open>xl\<close> whose workbook may fail to open and whose save
  (or close) may fail. A failing \<^verbatim>\<open>shutil.copy2\<close> is before the \<^verbatim>\<open>try\<close>: its exception
  reaches the caller as it is and the disk is as before the call, nothing is deleted.
  After a copy that succeeded, the generation raises exactly in three cases: the
  workbook cannot be opened; the processing of one report raises, the reports before it
  having been processed; the save fails after all reports have been processed. It
  raises the handler's \<open>Exception\<close>. In the second case the message is
  \<^verbatim>\<open>Error processing report\<close> with the path of that very report and the text of the
  exception its processing raised; in the two other cases no report is at the origin,
  and the message is the text of the failure of Excel. Whenever the generation raises
  after the copy, the output path holds no file afterwards; when it returns, the output
  path holds a workbook. The processing of a report raises exactly when its table cannot
  be loaded, the table has no first column, a mapping key does not split into a sheet
  and a cell, or a paste fails because its sheet is missing or its range is refused,
  and it raises that step's exception.
\<close>

theorem generate_failure_cleanup:
  "(\<forall>e. copy2 fs template_path output_path = Inl e \<longrightarrow>
      returned (generate_with xl fs template_path output_path report_mappings fund_code report_cache) = Inl e
      \<and> disk_after (generate_with xl fs template_path output_path report_mappings fund_code report_cache) = fs)
   \<and> (\<forall>fs1. copy2 fs template_path output_path = Inr fs1 \<longrightarrow>
        (\<forall>e. (returned (generate_with xl fs template_path output_path report_mappings fund_code report_cache) = Inl e) =
           ((\<exists>e0. app_open xl fs1 output_path = Inl e0
                \<and> e = Exception (''Error generating populated template: '' @ str_exn e0))
            \<or> (\<exists>wb before rp rms after st inner.
                  app_open xl fs1 output_path = Inr wb
                \<and> group_by_report report_mappings = before @ (rp, rms) # after
                \<and> process_reports fs1 fund_code before
                      \<lparr>book = wb, cache = (case report_cache of None \<Rightarrow> Map.empty | Some c \<Rightarrow> c),
                       reads = [], writes = []\<rparr> = (None, st)
                \<and> fst (process_report_body fs1 fund_code (rp, rms) st) = Some inner
                \<and> e = Exception (''Error generating populated template: '' @
                         ''Error processing report '' @ rp @ '': '' @ str_exn inner))
            \<or> (\<exists>wb st e0.
                  app_open xl fs1 output_path = Inr wb
                \<and> process_reports fs1 fund_code (group_by_report report_mappings)
                      \<lparr>book = wb, cache = (case report_cache of None \<Rightarrow> Map.empty | Some c \<Rightarrow> c),
                       reads = [], writes = []\<rparr> = (None, st)
                \<and> save_error xl = Some e0
                \<and> e = Exception (''Error generating populated template: '' @ str_exn e0))))
      \<and> (\<forall>e. returned (generate_with xl fs template_path output_path report_mappings fund_code report_cache) = Inl e \<longrightarrow>
            disk_after (generate_with xl fs template_path output_path report_mappings fund_code report_cache)
              = fs1(output_path := None))
      \<and> (\<forall>c. returned (generate_with xl fs template_path output_path report_mappings fund_code report_cache) = Inr c \<longrightarrow>
            (\<exists>wb. disk_after (generate_with xl fs template_path output_path report_mappings fund_code report_cache)
                    = fs1(output_path \<mapsto> Excel wb))))
   \<and> (\<forall>fs1 rp rms st inner.
        (fst (process_report_body fs1 fund_code (rp, rms) st) = Some inner) =
          (report_table fs1 (cache st) rp = Inl inner
           \<or> (\<exists>df. report_table fs1 (cache st) rp = Inr df \<and> filter_rows df fund_code = Inl inner)
           \<or> (\<exists>df filtered. report_table fs1 (cache st) rp = Inr df
                 \<and> filter_rows df fund_code = Inr filtered \<and> \<not> df_empty filtered
                 \<and> group_by_sheet rms (rows filtered) [] = Inl inner)
           \<or> (\<exists>df filtered sm. report_table fs1 (cache st) rp = Inr df
                 \<and> filter_rows df fund_code = Inr filtered \<and> \<not> df_empty filtered
                 \<and> group_by_sheet rms (rows filtered) [] = Inr sm
                 \<and> write_sheets (book st, writes st) sm = Inl inner)))
   \<and> (\<forall>rms vals acc inner.
        (group_by_sheet rms vals acc = Inl inner) =
          (\<exists>key info. (key, info) \<in> set rms \<and> unpack2 (split_on CHR ''!'' key) = Inl inner))
   \<and> (\<forall>wb dn sm inner.
        (write_sheets (wb, dn) sm = Inl inner) =
          (\<exists>before sn cells after wb_k dn_k.
             sm = before @ (sn, cells) # after
           \<and> write_sheets (wb, dn) before = Inr (wb_k, dn_k)
           \<and> (case map_of wb_k sn of
                 None \<Rightarrow> inner = ExcelError (''no sheet named '' @ sn)
               | Some sh \<Rightarrow> write_cells sn (sh, dn_k) cells = Inl inner)))
   \<and> (\<forall>sn sh dn cells inner.
        (write_cells sn (sh, dn) cells = Inl inner) =
          (\<exists>before cref vals after sh_k dn_k.
             cells = before @ (cref, vals) # after
           \<and> write_cells sn (sh, dn) before = Inr (sh_k, dn_k)
           \<and> paste_values sh_k cref vals = Inl inner))"
proof (intro conjI allI impI)
  fix e assume c: "copy2 fs template_path output_path = Inl e"
  show "returned (generate_with xl fs template_path output_path report_mappings fund_code report_cache) = Inl e"
    using generate_with_copy_fails [OF c] by blast
  show "disk_after (generate_with xl fs template_path output_path report_mappings fund_code report_cache) = fs"
    using generate_with_copy_fails [OF c] by blast
next
  fix fs1 e assume c: "copy2 fs template_path output_path = Inr fs1"
  show "(returned (generate_with xl fs template_path output_path report_mappings fund_code report_cache) = Inl e) =
           ((\<exists>e0. app_open xl fs1 output_path = Inl e0
                \<and> e = Exception (''Error generating populated template: '' @ str_exn e0))
            \<or> (\<exists>wb before rp rms after st inner.
                  app_open xl fs1 output_path = Inr wb
                \<and> group_by_report report_mappings = before @ (rp, rms) # after
                \<and> process_reports fs1 fund_code before
                      \<lparr>book = wb, cache = (case report_cache of None \<Rightarrow> Map.empty | Some c \<Rightarrow> c),
                       reads = [], writes = []\<rparr> = (None, st)
                \<and> fst (process_report_body fs1 fund_code (rp, rms) st) = Some inner
                \<and> e = Exception (''Error generating populated template: '' @
                         ''Error processing report '' @ rp @ '': '' @ str_exn inner))
            \<or> (\<exists>wb st e0.
                  app_open xl fs1 output_path = Inr wb
                \<and> process_reports fs1 fund_code (group_by_report report_mappings)
                      \<lparr>book = wb, cache = (case report_cache of None \<Rightarrow> Map.empty | Some c \<Rightarrow> c),
                       reads = [], writes = []\<rparr> = (None, st)
                \<and> save_error xl = Some e0
                \<and> e = Exception (''Error generating populated template: '' @ str_exn e0)))"
    by (rule generate_with_raises [OF c])
next
  fix fs1 e assume c: "copy2 fs template_path output_path = Inr fs1"
    and r: "returned (generate_with xl fs template_path output_path report_mappings fund_code report_cache) = Inl e"
  show "disk_after (generate_with xl fs template_path output_path report_mappings fund_code report_cache)
              = fs1(output_path := None)"
    using generate_with_deletes [OF c] r by blast
next
  fix fs1 c' assume c: "copy2 fs template_path output_path = Inr fs1"
    and r: "returned (generate_with xl fs template_path output_path report_mappings fund_code report_cache) = Inr c'"
  show "\<exists>wb. disk_after (generate_with xl fs template_path output_path report_mappings fund_code report_cache)
                    = fs1(output_path \<mapsto> Excel wb)"
    using generate_with_deletes [OF c] r by blast
next
  fix fs1 rp rms st inner
  show "(fst (process_report_body fs1 fund_code (rp, rms) st) = Some inner) =
          (report_table fs1 (cache st) rp = Inl inner
           \<or> (\<exists>df. report_table fs1 (cache st) rp = Inr df \<and> filter_rows df fund_code = Inl inner)
           \<or> (\<exists>df filtered. report_table fs1 (cache st) rp = Inr df
                 \<and> filter_rows df fund_code = Inr filtered \<and> \<not> df_empty filtered
                 \<and> group_by_sheet rms (rows filtered) [] = Inl inner)
           \<or> (\<exists>df filtered sm. report_table fs1 (cache st) rp = Inr df
                 \<and> filter_rows df fund_code = Inr filtered \<and> \<not> df_empty filtered
                 \<and> group_by_sheet rms (rows filtered) [] = Inr sm
                 \<and> write_sheets (book st, writes st) sm = Inl inner))"
    by (rule process_report_body_fails)
next
  fix rms vals acc inner
  show "(group_by_sheet rms vals acc = Inl inner) =
          (\<exists>key info. (key, info) \<in> set rms \<and> unpack2 (split_on CHR ''!'' key) = Inl inner)"
    by (rule group_by_sheet_fails)
next
  fix wb dn sm inner
  show "(write_sheets (wb, dn) sm = Inl inner) =
          (\<exists>before sn cells after wb_k dn_k.
             sm = before @ (sn, cells) # after
           \<and> write_sheets (wb, dn) before = Inr (wb_k, dn_k)
           \<and> (case map_of wb_k sn of
                 None \<Rightarrow> inner = ExcelError (''no sheet named '' @ sn)
               | Some sh \<Rightarrow> write_cells sn (sh, dn_k) cells = Inl inner))"
    by (rule write_sheets_fails)
next
  fix sn sh dn cells inner
  show "(write_cells sn (sh, dn) cells = Inl inner) =
          (\<exists>before cref vals after sh_k dn_k.
             cells = before @ (cref, vals) # after
           \<and> write_cells sn (sh, dn) before = Inr (sh_k, dn_k)
           \<and> paste_values sh_k cref vals = Inl inner)"
    by (rule write_cells_fails)
qed

theorem generate_failure_cleanup_witness:
  "returned (generate_with working_excel gen_disk ''template.xlsx'' ''out_FundA.xlsx''
               missing_sheet_mappings ''FundA'' None) =
     Inl (Exception ''Error generating populated template: Error processing report R1.xlsx: no sheet named Nope'')
   \<and> disk_after (generate_with working_excel gen_disk ''template.xlsx'' ''out_FundA.xlsx''
               missing_sheet_mappings ''FundA'' None) ''out_FundA.xlsx'' = None
   \<and> returned (generate_with save_fails gen_disk ''template.xlsx'' ''out_FundC.xlsx''
               two_mappings ''FundC'' None) =
     Inl (Exception ''Error generating populated template: cannot save the workbook'')
   \<and> disk_after (generate_with save_fails gen_disk ''template.xlsx'' ''out_FundC.xlsx''
               two_mappings ''FundC'' None) ''out_FundC.xlsx'' = None"
proof -
  let ?wb = "[(''Summary'', summary_sheet), (''Detail'', [])]"
  let ?c0 = "case None of None \<Rightarrow> Map.empty | Some c \<Rightarrow> (c :: report_cache)"
  let ?fsA = "gen_disk(''out_FundA.xlsx'' \<mapsto> Excel ?wb)"
  let ?GA = "generate_with working_excel gen_disk ''template.xlsx'' ''out_FundA.xlsx''
               missing_sheet_mappings ''FundA'' None"
  let ?stA = "\<lparr>book = ?wb, cache = ?c0, reads = [], writes = []\<rparr>"
  let ?eA = "Exception (''Error generating populated template: '' @
            ''Error processing report '' @ ''R1.xlsx'' @ '': '' @
            str_exn (ExcelError ''no sheet named Nope''))"
  have cpA: "copy2 gen_disk ''template.xlsx'' ''out_FundA.xlsx'' = Inr ?fsA"
    by (simp add: copy2_def gen_disk_def)
  have opA: "app_open working_excel ?fsA ''out_FundA.xlsx'' = Inr ?wb"
    by (simp add: app_open_def working_excel_def books_open_def)
  have dA: "group_by_report missing_sheet_mappings =
              [] @ (''R1.xlsx'', missing_sheet_mappings) # []"
    by (simp add: group_by_report_def missing_sheet_mappings_def append_group_def)
  have wA: "process_reports ?fsA ''FundA'' [] ?stA = (None, ?stA)" by simp
  have "fst (process_report_body ?fsA ''FundA'' (''R1.xlsx'', missing_sheet_mappings)
               \<lparr>book = ?wb, cache = Map.empty, reads = [], writes = []\<rparr>) =
          Some (ExcelError ''no sheet named Nope'')"
    by code_simp
  then have iA: "fst (process_report_body ?fsA ''FundA'' (''R1.xlsx'', missing_sheet_mappings) ?stA) =
          Some (ExcelError ''no sheet named Nope'')"
    by simp
  note afterA = conjunct1 [OF conjunct2 [OF generate_failure_cleanup
      [of gen_disk "''template.xlsx''" "''out_FundA.xlsx''" working_excel
          missing_sheet_mappings "''FundA''" None]], THEN spec, THEN mp, OF cpA]
  note iffA = conjunct1 [OF afterA, THEN spec, of ?eA]
  note delA = conjunct1 [OF conjunct2 [OF afterA], THEN spec, THEN mp, of ?eA]
  have rA: "returned ?GA = Inl ?eA"
    apply (rule iffD2 [OF iffA])
    apply (rule disjI2)
    apply (rule disjI1)
    apply (intro exI conjI)
        apply (rule opA)
       apply (rule dA)
      apply (rule wA)
     apply (rule iA)
    apply (rule refl)
    done
  have goneA: "disk_after ?GA = ?fsA(''out_FundA.xlsx'' := None)"
    by (rule delA [OF rA])
  let ?fsC = "gen_disk(''out_FundC.xlsx'' \<mapsto> Excel ?wb)"
  let ?GC = "generate_with save_fails gen_disk ''template.xlsx'' ''out_FundC.xlsx''
               two_mappings ''FundC'' None"
  let ?stC = "\<lparr>book = ?wb, cache = ?c0, reads = [], writes = []\<rparr>"
  let ?eC = "Exception (''Error generating populated template: '' @
            str_exn (ExcelError ''cannot save the workbook''))"
  have cpC: "copy2 gen_disk ''template.xlsx'' ''out_FundC.xlsx'' = Inr ?fsC"
    by (simp add: copy2_def gen_disk_def)
  have opC: "app_open save_fails ?fsC ''out_FundC.xlsx'' = Inr ?wb"
    by (simp add: app_open_def save_fails_def books_open_def)
  have "fst (process_reports ?fsC ''FundC'' (group_by_report two_mappings)
               \<lparr>book = ?wb, cache = Map.empty, reads = [], writes = []\<rparr>) = None"
    by code_simp
  then obtain st where wC: "process_reports ?fsC ''FundC'' (group_by_report two_mappings) ?stC = (None, st)"
    by (cases "process_reports ?fsC ''FundC'' (group_by_report two_mappings) ?stC") simp
  have svC: "save_error save_fails = Some (ExcelError ''cannot save the workbook'')"
    by (simp add: save_fails_def)
  note afterC = conjunct1 [OF conjunct2 [OF generate_failure_cleanup
      [of gen_disk "''template.xlsx''" "''out_FundC.xlsx''" save_fails
          two_mappings "''FundC''" None]], THEN spec, THEN mp, OF cpC]
  note iffC = conjunct1 [OF afterC, THEN spec, of ?eC]
  note delC = conjunct1 [OF conjunct2 [OF afterC], THEN spec, THEN mp, of ?eC]
  have rC: "returned ?GC = Inl ?eC"
    apply (rule iffD2 [OF iffC])
    apply (rule disjI2)
    apply (rule disjI2)
    apply (intro exI conjI)
       apply (rule opC)
      apply (rule wC)
     apply (rule svC)
    apply (rule refl)
    done
  have goneC: "disk_after ?GC = ?fsC(''out_FundC.xlsx'' := None)"
    by (rule delC [OF rC])
  show ?thesis
    by (simp add: rA goneA rC goneC)
qed

section \<open>The pastes of a generation\<close>

lemma append_group_Nil: "append_group k v [] = [(k, [v])]"
  by (simp add: append_group_def)

lemma append_group_Cons:
  "append_group k v ((k0, vs0) # d) =
     (if k0 = k then (k, vs0 @ [v]) # d else (k0, vs0) # append_group k v d)"
  by (simp add: append_group_def)

lemma flat_append_group: "mset (flat (append_group k v d)) = mset (flat d) + {#(k, v)#}"
proof (induction d)
  case Nil
  show ?case by (simp add: append_group_Nil flat_def)
next
  case (Cons p d)
  obtain k0 vs0 where p: "p = (k0, vs0)" by (cases p)
  show ?case
  proof (cases "k0 = k")
    case True
    then show ?thesis by (simp add: p append_group_Cons flat_def)
  next
    case False
    have "flat ((k0, vs0) # append_group k v d) = map (Pair k0) vs0 @ flat (append_group k v d)"
      by (simp add: flat_def)
    moreover have "flat ((k0, vs0) # d) = map (Pair k0) vs0 @ flat d"
      by (simp add: flat_def)
    ultimately show ?thesis using False Cons.IH by (simp add: p append_group_Cons)
  qed
qed

lemma append_group_distinct:
  "distinct (map fst d) \<Longrightarrow> distinct (map fst (append_group k v d))"
  by (simp add: append_group_def distinct_update)

lemma fold_append_group_flat:
  "mset (flat (fold (\<lambda>(k, info). append_group (report info) (k, info)) ms d)) =
     mset (flat d) + mset (map (\<lambda>(k, info). (report info, (k, info))) ms)"
proof (induction ms arbitrary: d)
  case Nil
  show ?case by simp
next
  case (Cons m ms)
  obtain k info where m: "m = (k, info)" by (cases m)
  show ?case by (simp add: Cons.IH m flat_append_group)
qed

lemma fold_append_group_distinct:
  "distinct (map fst d) \<Longrightarrow>
     distinct (map fst (fold (\<lambda>(k, info). append_group (report info) (k, info)) ms d))"
proof (induction ms arbitrary: d)
  case Nil
  then show ?case by simp
next
  case (Cons m ms)
  obtain k info where m: "m = (k, info)" by (cases m)
  show ?case using Cons.prems by (simp add: m Cons.IH append_group_distinct)
qed

lemma flat_Nil: "flat [] = []"
  by (simp add: flat_def)

lemma group_by_report_flat:
  "mset (flat (group_by_report ms)) = mset (map (\<lambda>(k, info). (report info, (k, info))) ms)"
  by (simp add: group_by_report_def fold_append_group_flat flat_Nil)

lemma group_by_report_distinct: "distinct (map fst (group_by_report ms))"
  by (simp add: group_by_report_def fold_append_group_distinct)

lemma split_on_nonempty: "split_on sep xs \<noteq> []"
  by (induction xs) (auto split: list.splits)

lemma split_on_one: "split_on sep xs = [b] \<Longrightarrow> xs = b"
proof (induction xs arbitrary: b)
  case Nil
  then show ?case by simp
next
  case (Cons x xs)
  then show ?case using split_on_nonempty [of sep xs] by (auto split: if_splits list.splits)
qed

lemma split_on_two: "split_on sep xs = [a, b] \<Longrightarrow> xs = a @ sep # b"
proof (induction xs arbitrary: a)
  case Nil
  then show ?case by simp
next
  case (Cons x xs)
  show ?case
  proof (cases "x = sep")
    case True
    then show ?thesis using Cons.prems by (auto dest: split_on_one)
  next
    case False
    then show ?thesis using Cons.prems Cons.IH by (auto split: list.splits)
  qed
qed

lemma unpack2_split:
  "unpack2 (split_on CHR ''!'' k) = Inr (sheet_name, cell_ref) \<Longrightarrow> k = sheet_name @ ''!'' @ cell_ref"
proof -
  assume "unpack2 (split_on CHR ''!'' k) = Inr (sheet_name, cell_ref)"
  then have "split_on CHR ''!'' k = [sheet_name, cell_ref]"
    by (auto simp: unpack2_def split: list.splits)
  then show ?thesis by (auto dest: split_on_two)
qed

lemma plan_flat: "plan sm = map (\<lambda>(sheet_name, cell_ref, values). (sheet_name, cell_ref, values)) (flat sm)"
  by (induction sm) (auto simp: plan_def flat_def)

lemma plan_flat': "plan sm = flat sm"
  by (simp add: plan_flat)

lemma group_by_sheet_plan:
  "group_by_sheet ms values acc = Inr sm \<Longrightarrow>
     mset (map keyed (plan sm)) = mset (map keyed (plan acc)) + mset (map (\<lambda>(k, info). (k, values)) ms)"
proof (induction ms arbitrary: acc)
  case Nil
  then show ?case by simp
next
  case (Cons m ms)
  obtain k info where m: "m = (k, info)" by (cases m)
  from Cons.prems m obtain sheet_name cell_ref where
    sp: "unpack2 (split_on CHR ''!'' k) = Inr (sheet_name, cell_ref)"
    and rest: "group_by_sheet ms values (append_group sheet_name (cell_ref, values) acc) = Inr sm"
    by (auto split: sum.splits)
  have k: "k = sheet_name @ ''!'' @ cell_ref" using sp by (rule unpack2_split)
  have "mset (map keyed (plan (append_group sheet_name (cell_ref, values) acc))) =
        mset (map keyed (plan acc)) + {#(k, values)#}"
  proof -
    have "mset (map keyed (flat (append_group sheet_name (cell_ref, values) acc))) =
          image_mset keyed (mset (flat (append_group sheet_name (cell_ref, values) acc)))"
      by simp
    also have "\<dots> = image_mset keyed (mset (flat acc) + {#(sheet_name, cell_ref, values)#})"
      by (simp only: flat_append_group)
    also have "\<dots> = mset (map keyed (flat acc)) + {#(k, values)#}"
      by (simp add: keyed_def k)
    finally show ?thesis by (simp only: plan_flat')
  qed
  then show ?case using Cons.IH [OF rest] by (simp add: m)
qed

lemma write_cells_log:
  "write_cells sheet_name (sh, done) cells = Inr (sh', done') \<Longrightarrow>
     done' = done @ map (\<lambda>(cell_ref, values). (sheet_name, cell_ref, values)) cells"
proof (induction cells arbitrary: sh "done")
  case Nil
  then show ?case by simp
next
  case (Cons cv cells)
  obtain cell_ref vals where cv: "cv = (cell_ref, vals)" by (cases cv)
  from Cons.prems cv obtain sh1 where
    "write_cells sheet_name (sh1, done @ [(sheet_name, cell_ref, vals)]) cells = Inr (sh', done')"
    by (auto split: sum.splits)
  from Cons.IH [OF this] show ?case by (simp add: cv)
qed

lemma write_sheets_log:
  "write_sheets (wb, done) sm = Inr (wb', done') \<Longrightarrow> done' = done @ plan sm"
proof (induction sm arbitrary: wb "done")
  case Nil
  then show ?case by (simp add: plan_def)
next
  case (Cons p sm)
  obtain sheet_name cells where p: "p = (sheet_name, cells)" by (cases p)
  from Cons.prems p obtain sh sh1 done1 where
    w: "write_cells sheet_name (sh, done) cells = Inr (sh1, done1)"
    and rest: "write_sheets (AList.update sheet_name sh1 wb, done1) sm = Inr (wb', done')"
    by (auto split: option.splits sum.splits)
  have "done1 = done @ map (\<lambda>(cell_ref, values). (sheet_name, cell_ref, values)) cells"
    using w by (rule write_cells_log)
  then show ?case using Cons.IH [OF rest] by (simp add: p plan_def)
qed

lemma block_of_load_cache: "block_of fs (load_cache fs rp c) fund x = block_of fs c fund x"
  by (simp add: block_of_def report_table_load_cache)

lemma plan_Nil: "plan [] = []"
  by (simp add: plan_def)

lemma process_report_writes:
  assumes ok: "process_report fs fund (rp, ms) st = (None, st')"
  shows "\<exists>new. writes st' = writes st @ new \<and>
           mset (map keyed new) =
             mset (map (\<lambda>(k, info). (k, block_of fs (cache st) fund rp))
                    (if block_of fs (cache st) fund rp = [] then [] else ms))"
proof -
  let ?B = "block_of fs (cache st) fund rp"
  let ?st1 = "st\<lparr>cache := load_cache fs rp (cache st), reads := reads st @ load_reads rp (cache st)\<rparr>"
  from ok obtain df where tab: "report_table fs (cache st) rp = Inr df"
    by (cases "report_table fs (cache st) rp")
       (auto simp: process_report_unfold load_report_eq Let_def)
  from ok tab obtain filtered where fl: "filter_rows df fund = Inr filtered"
    by (cases "filter_rows df fund")
       (auto simp: process_report_unfold load_report_eq Let_def)
  have B: "?B = rows filtered" using tab fl by (simp add: block_of_def)
  have cols: "columns filtered \<noteq> []"
    using fl by (auto simp: filter_rows_eq split: if_splits)
  show ?thesis
  proof (cases "rows filtered = []")
    case True
    then have "st' = ?st1"
      using ok tab fl by (simp add: process_report_unfold load_report_eq Let_def df_empty_def)
    then show ?thesis using True B by simp
  next
    case False
    then have ne: "\<not> df_empty filtered" using cols by (simp add: df_empty_def)
    from ok tab fl ne obtain sm where
      gs: "group_by_sheet ms (rows filtered) [] = Inr sm"
      by (cases "group_by_sheet ms (rows filtered) []")
         (auto simp: process_report_unfold load_report_eq Let_def)
    from ok tab fl ne gs obtain wb dn where
      ws: "write_sheets (book st, writes st) sm = Inr (wb, dn)"
      and st': "st' = ?st1\<lparr>book := wb, writes := dn\<rparr>"
      by (cases "write_sheets (book st, writes st) sm")
         (auto simp: process_report_unfold load_report_eq Let_def)
    have dn: "dn = writes st @ plan sm" using ws by (rule write_sheets_log)
    have "mset (map keyed (plan sm)) = mset (map (\<lambda>(k, info). (k, rows filtered)) ms)"
      using group_by_sheet_plan [OF gs] by (simp add: plan_Nil)
    then show ?thesis using st' dn B False by simp
  qed
qed

lemma process_reports_writes:
  "process_reports fs fund gs st = (None, st') \<Longrightarrow>
     \<exists>new. writes st' = writes st @ new \<and>
       mset (map keyed new) =
         mset (concat (map (\<lambda>(rp, ms). map (\<lambda>(k, info). (k, block_of fs (cache st) fund rp))
                                  (if block_of fs (cache st) fund rp = [] then [] else ms)) gs))"
proof (induction gs arbitrary: st)
  case Nil
  then show ?case by simp
next
  case (Cons g gs)
  obtain rp ms where g: "g = (rp, ms)" by (cases g)
  obtain r1 st1 where step: "process_report fs fund (rp, ms) st = (r1, st1)"
    by (cases "process_report fs fund (rp, ms) st")
  have r1: "r1 = None" using Cons.prems g step by (cases r1) simp_all
  then have rest: "process_reports fs fund gs st1 = (None, st')"
    using Cons.prems g step by simp
  have c1: "cache st1 = load_cache fs rp (cache st)"
    using process_report_cache [OF step] by simp
  have same: "\<And>x. block_of fs (cache st1) fund x = block_of fs (cache st) fund x"
    by (simp add: c1 block_of_load_cache)
  from process_report_writes [OF step [unfolded r1]] obtain new1 where
    w1: "writes st1 = writes st @ new1"
    and m1: "mset (map keyed new1) =
             mset (map (\<lambda>(k, info). (k, block_of fs (cache st) fund rp))
                    (if block_of fs (cache st) fund rp = [] then [] else ms))"
    by blast
  from Cons.IH [OF rest] obtain new2 where
    w2: "writes st' = writes st1 @ new2"
    and m2: "mset (map keyed new2) =
         mset (concat (map (\<lambda>(rp, ms). map (\<lambda>(k, info). (k, block_of fs (cache st) fund rp))
                                  (if block_of fs (cache st) fund rp = [] then [] else ms)) gs))"
    by (auto simp: same)
  have "writes st' = writes st @ (new1 @ new2)" using w1 w2 by simp
  moreover have "mset (map keyed (new1 @ new2)) =
         mset (concat (map (\<lambda>(rp, ms). map (\<lambda>(k, info). (k, block_of fs (cache st) fund rp))
                                  (if block_of fs (cache st) fund rp = [] then [] else ms)) (g # gs)))"
    using m1 m2 by (simp add: g)
  ultimately show ?case by blast
qed

lemma concat_groups_flat:
  "concat (map (\<lambda>(rp, ms). map (\<lambda>(k, info). (k, B rp)) (if B rp = [] then [] else ms)) gs) =
     map (\<lambda>(rp, k, info). (k, B rp)) (filter (\<lambda>(rp, m). B rp \<noteq> []) (flat gs))"
proof (induction gs)
  case Nil
  show ?case by (simp add: flat_def)
next
  case (Cons g gs)
  obtain rp ms where g: "g = (rp, ms)" by (cases g)
  have "flat (g # gs) = map (Pair rp) ms @ flat gs" by (simp add: flat_def g)
  then show ?case using Cons.IH by (simp add: g comp_def case_prod_unfold)
qed

lemma groups_writes:
  "mset (concat (map (\<lambda>(rp, ms). map (\<lambda>(k, info). (k, B rp)) (if B rp = [] then [] else ms))
                  (group_by_report ms))) =
     mset (map (\<lambda>(k, info). (k, B (report info))) (filter (\<lambda>(k, info). B (report info) \<noteq> []) ms))"
proof -
  let ?h = "\<lambda>(k, info). (report info, (k, info))"
  let ?g = "\<lambda>(rp, k, info). (k, B rp)"
  let ?P = "\<lambda>(rp, m). B rp \<noteq> []"
  have "mset (map ?g (filter ?P (flat (group_by_report ms)))) =
        image_mset ?g (filter_mset ?P (mset (flat (group_by_report ms))))"
    by simp
  also have "\<dots> = image_mset ?g (filter_mset ?P (image_mset ?h (mset ms)))"
    by (simp add: group_by_report_flat)
  also have "\<dots> = image_mset ?g (image_mset ?h (filter_mset (\<lambda>x. ?P (?h x)) (mset ms)))"
    by (simp only: image_mset_filter_mset_swap)
  also have "\<dots> = mset (map (\<lambda>(k, info). (k, B (report info)))
                       (filter (\<lambda>(k, info). B (report info) \<noteq> []) ms))"
    by (simp add: image_mset.compositionality comp_def case_prod_unfold)
  finally show ?thesis by (simp only: concat_groups_flat)
qed

lemma generate_writes:
  assumes cp: "copy2 fs t out = Inr fs1"
    and ok: "returned (generate_populated_template fs t out ms fund rc) = Inr c'"
  shows "mset (map keyed (write_log (generate_populated_template fs t out ms fund rc))) =
     mset (map (\<lambda>(k, info). (k, block_of fs1 (case rc of None \<Rightarrow> Map.empty | Some c \<Rightarrow> c) fund (report info)))
            (filter (\<lambda>(k, info). block_of fs1 (case rc of None \<Rightarrow> Map.empty | Some c \<Rightarrow> c) fund (report info) \<noteq> [])
               ms))"
proof -
  let ?c0 = "case rc of None \<Rightarrow> Map.empty | Some c \<Rightarrow> c"
  from cp ok obtain wb where op: "books_open fs1 out = Inr wb"
    by (cases "books_open fs1 out") (auto simp: generate_populated_template_unfold)
  let ?st0 = "\<lparr>book = wb, cache = ?c0, reads = [], writes = []\<rparr>"
  obtain res st where run: "process_reports fs1 fund (group_by_report ms) ?st0 = (res, st)"
    by (cases "process_reports fs1 fund (group_by_report ms) ?st0")
  have res: "res = None"
    using cp ok op run by (cases res) (auto simp: generate_populated_template_unfold)
  have wl: "write_log (generate_populated_template fs t out ms fund rc) = writes st"
    using cp op run res by (simp add: generate_populated_template_unfold)
  from process_reports_writes [OF run [unfolded res]] obtain new where
    "writes st = new"
    and "mset (map keyed new) =
         mset (concat (map (\<lambda>(rp, ms). map (\<lambda>(k, info). (k, block_of fs1 ?c0 fund rp))
                                  (if block_of fs1 ?c0 fund rp = [] then [] else ms)) (group_by_report ms)))"
    by auto
  then show ?thesis
    using wl groups_writes [of "block_of fs1 ?c0 fund" ms] by simp
qed

text \<open>
  A report whose first sheet is empty has no first column: the extraction returns no code
  for it, and a generation with a mapping for it raises for any fund code.
\<close>

lemma generate_report_without_columns:
  "(case returned (generate_populated_template empty_report_disk ''template.xlsx'' ''out_FundA.xlsx''
                     empty_report_mappings ''FundA'' None) of
      Inl e \<Rightarrow> e = Exception ''Error generating populated template: Error processing report E.xlsx: single positional indexer is out-of-bounds''
    | Inr c \<Rightarrow> False)
   \<and> get_fund_codes empty_report_disk ''E.xlsx'' = Inr []"
  by code_simp

text \<open>
  C7, as stated, fails: with two mappings for the same report and a fund code that is in
  no row of it, the generation returns and has made no paste.
\<close>

theorem generate_no_write_without_rows:
  "\<not> isl (returned (generate_populated_template gen_disk ''template.xlsx'' ''out_FundC.xlsx''
                      two_mappings ''FundC'' None))
   \<and> map (\<lambda>(key, info). report info) two_mappings = [''R1.xlsx'', ''R1.xlsx'']
   \<and> write_log (generate_populated_template gen_disk ''template.xlsx'' ''out_FundC.xlsx''
                   two_mappings ''FundC'' None) = []"
  by code_simp

text \<open>
  C7, amended. When the generation returns, its pastes are, up to their order, one for
  each mapping whose report has a row for the fund code: the paste has the sheet and the
  cell of the mapping's key and carries the rows that the filter keeps of the mapping's
  report, the same for all the mappings of a report. A mapping whose report has no row
  for the fund code gets no paste. Each report is one group of the grouping, so it is
  loaded and filtered once in the call.
\<close>

theorem generate_one_write_per_mapping:
  assumes cp: "copy2 fs template_path output_path = Inr fs1"
    and ok: "returned (generate_populated_template fs template_path output_path report_mappings fund_code report_cache) = Inr c'"
  shows "mset (map keyed (write_log (generate_populated_template fs template_path output_path report_mappings fund_code report_cache))) =
     mset (map (\<lambda>(key, info).
                  (key, block_of fs1 (case report_cache of None \<Rightarrow> Map.empty | Some c \<Rightarrow> c) fund_code (report info)))
            (filter (\<lambda>(key, info).
                       block_of fs1 (case report_cache of None \<Rightarrow> Map.empty | Some c \<Rightarrow> c) fund_code (report info) \<noteq> [])
               report_mappings))
     \<and> distinct (map fst (group_by_report report_mappings))"
  using generate_writes [OF cp ok] group_by_report_distinct by blast

theorem generate_one_write_per_mapping_witness:
  "mset (map keyed (write_log (generate_populated_template gen_disk ''template.xlsx'' ''out_FundA.xlsx''
                                 two_mappings ''FundA'' None))) =
     {#(''Summary!A5'', [[Text ''FundA'', Number 10], [Text ''FundA'', Number 30]]),
       (''Detail!B2'', [[Text ''FundA'', Number 10], [Text ''FundA'', Number 30]])#}"
proof -
  let ?wb = "[(''Summary'', summary_sheet), (''Detail'', [])]"
  let ?G = "generate_populated_template gen_disk ''template.xlsx'' ''out_FundA.xlsx''
              two_mappings ''FundA'' None"
  have cp: "copy2 gen_disk ''template.xlsx'' ''out_FundA.xlsx'' =
              Inr (gen_disk(''out_FundA.xlsx'' \<mapsto> Excel ?wb))"
    by (simp add: copy2_def gen_disk_def)
  have "\<not> isl (returned ?G)" by code_simp
  then obtain c' where ok: "returned ?G = Inr c'" by (cases "returned ?G") simp_all
  have blk: "block_of (gen_disk(''out_FundA.xlsx'' \<mapsto> Excel ?wb)) Map.empty ''FundA'' ''R1.xlsx'' =
               [[Text ''FundA'', Number 10], [Text ''FundA'', Number 30]]"
    by code_simp
  show ?thesis
    using conjunct1 [OF generate_one_write_per_mapping [OF cp ok]]
    by (simp add: two_mappings_def blk)
qed

text \<open>
  The scenario of the specification: the two rows of \<^verbatim>\<open>FundA\<close>, with all their columns,
  at \<^verbatim>\<open>A5:B6\<close> of the sheet \<^verbatim>\<open>Summary\<close>, the cells around them as in the template.
\<close>

lemma generate_scenario:
  "disk_after (generate_populated_template gen_disk ''template.xlsx'' ''out_FundA.xlsx''
                 [(''Summary!A5'', \<lparr>report = ''R1.xlsx'', insert_position = ''A5''\<rparr>)] ''FundA'' None)
     ''out_FundA.xlsx'' =
   Some (Excel [(''Summary'',
                 [[Text ''Summary of the fund''], [], [], [],
                  [Text ''FundA'', Number 10, Text ''keep''],
                  [Text ''FundA'', Number 30]]),
                (''Detail'', [])])"
  by code_simp

section \<open>The cells of the generated workbook\<close>





















end
